theory Spec2Isabelle
  imports Main "HOL-Library.Word"
begin

section \<open>CTEX to image converter (main.py)\<close>

text \<open>
  A shallow embedding of \<^verbatim>\<open>main.py\<close>: \<^verbatim>\<open>convert_ctex_to_image\<close> and
  \<^verbatim>\<open>find_ctex_files\<close>. Python values are modelled as follows: \<^verbatim>\<open>bytes\<close> is a list of
  8-bit words, \<^verbatim>\<open>str\<close> is \<open>string\<close>, the unbounded \<^verbatim>\<open>int\<close> values that occur (sizes and
  the unsigned format tag) are \<open>nat\<close>, a raised exception is the \<open>Inl\<close> of a sum, and
  the file system is an explicit state that is passed in and returned.
\<close>

subsection \<open>Python values: bytes, decimal text, exceptions\<close>

type_synonym byte = "8 word"

text \<open>\<^verbatim>\<open>str(n)\<close> and \<^verbatim>\<open>f'{n}'\<close> for a non-negative \<^verbatim>\<open>int\<close>: decimal digits, no sign,
  no leading zero.\<close>

definition digit_char :: "nat \<Rightarrow> char" where
  "digit_char d = char_of (48 + d)"

function py_str :: "nat \<Rightarrow> string" where
  "py_str n = (if n < 10 then [digit_char n] else py_str (n div 10) @ [digit_char (n mod 10)])"
  by pat_completeness auto
termination
  by (relation "measure id") auto

declare py_str.simps [simp del]

text \<open>Reading a decimal numeral back; used to show that \<open>py_str\<close> loses nothing.\<close>

definition digit_val :: "char \<Rightarrow> nat" where
  "digit_val c = of_char c - 48"

definition parse_decimal :: "string \<Rightarrow> nat" where
  "parse_decimal s = foldl (\<lambda>a c. 10 * a + digit_val c) 0 s"

text \<open>\<^verbatim>\<open>str.lower()\<close> on ASCII text, and \<^verbatim>\<open>str.endswith\<close>.\<close>

definition lower_char :: "char \<Rightarrow> char" where
  "lower_char c =
     (if 65 \<le> (of_char c :: nat) \<and> (of_char c :: nat) \<le> 90 then char_of (of_char c + 32 :: nat) else c)"

definition lower :: "string \<Rightarrow> string" where
  "lower s = map lower_char s"

definition endswith :: "string \<Rightarrow> string \<Rightarrow> bool" where
  "endswith s suffix = (length suffix \<le> length s \<and> drop (length s - length suffix) s = suffix)"

text \<open>
  Exceptions. \<open>OSError\<close>, \<open>ValueError\<close> and \<open>StructError\<close> (\<^verbatim>\<open>struct.error\<close>) derive from
  \<^verbatim>\<open>Exception\<close>; \<open>KeyboardInterrupt\<close> and \<open>SystemExit\<close> derive from \<^verbatim>\<open>BaseException\<close>
  only. \<open>FileNotFoundError\<close> is the subclass of \<^verbatim>\<open>OSError\<close> that \<^verbatim>\<open>Path.mkdir\<close> tells apart;
  \<open>OSError\<close> stands for every other \<^verbatim>\<open>OSError\<close>. Each carries the text that \<^verbatim>\<open>str(e)\<close> yields.
\<close>

datatype py_exn =
    OSError string
  | FileNotFoundError string
  | ValueError string
  | StructError string
  | KeyboardInterrupt string
  | SystemExit string

fun is_Exception :: "py_exn \<Rightarrow> bool" where
  "is_Exception (OSError _) = True"
| "is_Exception (FileNotFoundError _) = True"
| "is_Exception (ValueError _) = True"
| "is_Exception (StructError _) = True"
| "is_Exception (KeyboardInterrupt _) = False"
| "is_Exception (SystemExit _) = False"

fun is_OSError :: "py_exn \<Rightarrow> bool" where
  "is_OSError (OSError _) = True"
| "is_OSError (FileNotFoundError _) = True"
| "is_OSError _ = False"

fun is_FileNotFoundError :: "py_exn \<Rightarrow> bool" where
  "is_FileNotFoundError (FileNotFoundError _) = True"
| "is_FileNotFoundError _ = False"

fun exn_str :: "py_exn \<Rightarrow> string" where
  "exn_str (OSError m) = m"
| "exn_str (FileNotFoundError m) = m"
| "exn_str (ValueError m) = m"
| "exn_str (StructError m) = m"
| "exn_str (KeyboardInterrupt m) = m"
| "exn_str (SystemExit m) = m"

subsection \<open>The format tag\<close>

text \<open>\<^verbatim>\<open>struct.unpack('<I', b)[0]\<close>: the buffer must hold exactly four bytes, read least
  significant byte first.\<close>

fun le_value :: "byte list \<Rightarrow> nat" where
  "le_value [] = 0"
| "le_value (b # bs) = unat b + 256 * le_value bs"

definition struct_unpack_I :: "byte list \<Rightarrow> py_exn + nat" where
  "struct_unpack_I b =
     (if length b \<noteq> 4 then Inl (StructError ''unpack requires a buffer of 4 bytes'')
      else Inr (le_value b))"

text \<open>The two dictionaries of \<^verbatim>\<open>convert_ctex_to_image\<close> and \<^verbatim>\<open>dict.get(key, default)\<close>.\<close>

definition format_map :: "nat \<rightharpoonup> string" where
  "format_map = [0 \<mapsto> ''.unknown'', 1 \<mapsto> ''.png'', 2 \<mapsto> ''.webp'', 3 \<mapsto> ''.basis'']"

definition format_name_map :: "nat \<rightharpoonup> string" where
  "format_name_map = [0 \<mapsto> ''IMAGE'', 1 \<mapsto> ''PNG'', 2 \<mapsto> ''WEBP'', 3 \<mapsto> ''BASIS_UNIVERSAL'']"

definition dict_get :: "('k \<rightharpoonup> 'v) \<Rightarrow> 'k \<Rightarrow> 'v \<Rightarrow> 'v" where
  "dict_get d k dflt = (case d k of None \<Rightarrow> dflt | Some v \<Rightarrow> v)"

text \<open>\<^verbatim>\<open>ext = format_map.get(format_type, f'.format{format_type}')\<close>\<close>

definition format_ext :: "nat \<Rightarrow> string" where
  "format_ext format_type = dict_get format_map format_type (''.format'' @ py_str format_type)"

text \<open>\<^verbatim>\<open>format_name = {...}.get(format_type, f'UNKNOWN({format_type})')\<close>\<close>

definition format_name :: "nat \<Rightarrow> string" where
  "format_name format_type =
     dict_get format_name_map format_type (''UNKNOWN('' @ py_str format_type @ '')'')"

subsection \<open>pathlib: pure POSIX paths\<close>

text \<open>
  \<^verbatim>\<open>pathlib.Path\<close> on a POSIX system, as far as the converter uses it (Python 3.8 to
  3.13): a path is its root (\<^verbatim>\<open>''\<close>, \<^verbatim>\<open>'/'\<close> or \<^verbatim>\<open>'//'\<close>) and the list of its
  components; parsing drops empty components and \<^verbatim>\<open>'.'\<close>.
\<close>

record pure_path =
  p_root :: string
  p_tail :: "string list"

text \<open>\<^verbatim>\<open>s.split('/')\<close>\<close>

fun split_sep :: "string \<Rightarrow> string list" where
  "split_sep [] = [] # []"
| "split_sep (c # cs) =
     (if c = CHR ''/'' then [] # split_sep cs
      else (case split_sep cs of [] \<Rightarrow> [c] # [] | x # xs \<Rightarrow> (c # x) # xs))"

text \<open>\<^verbatim>\<open>'/'.join(parts)\<close>\<close>

fun join_sep :: "string list \<Rightarrow> string" where
  "join_sep [] = []"
| "join_sep [x] = x"
| "join_sep (x # y # ys) = x @ ''/'' @ join_sep (y # ys)"

text \<open>\<^verbatim>\<open>posixpath.splitroot\<close>: exactly two leading slashes are kept as the root \<^verbatim>\<open>'//'\<close>.\<close>

definition splitroot :: "string \<Rightarrow> string \<times> string" where
  "splitroot p =
     (if take 1 p \<noteq> ''/'' then ([], p)
      else if take 1 (drop 1 p) \<noteq> ''/'' \<or> take 1 (drop 2 p) = ''/'' then (''/'', drop 1 p)
      else (take 2 p, drop 2 p))"

definition Path :: "string \<Rightarrow> pure_path" where
  "Path s =
     (case splitroot s of (r, rel) \<Rightarrow>
        \<lparr>p_root = r, p_tail = filter (\<lambda>x. x \<noteq> [] \<and> x \<noteq> ''.'') (split_sep rel)\<rparr>)"

text \<open>\<^verbatim>\<open>str(path)\<close>; the empty path prints as \<^verbatim>\<open>'.'\<close>.\<close>

definition path_str :: "pure_path \<Rightarrow> string" where
  "path_str P =
     (let s = p_root P @ join_sep (p_tail P) in if s = [] then ''.'' else s)"

text \<open>\<^verbatim>\<open>path.name\<close>, \<^verbatim>\<open>path.parent\<close> and \<^verbatim>\<open>path / key\<close>\<close>

definition path_name :: "pure_path \<Rightarrow> string" where
  "path_name P = (if p_tail P = [] then [] else last (p_tail P))"

definition path_parent :: "pure_path \<Rightarrow> pure_path" where
  "path_parent P = (if p_tail P = [] then P else P\<lparr>p_tail := butlast (p_tail P)\<rparr>)"

definition truediv :: "pure_path \<Rightarrow> string \<Rightarrow> pure_path" where
  "truediv P key =
     (let Q = Path key in if p_root Q \<noteq> [] then Q else P\<lparr>p_tail := p_tail P @ p_tail Q\<rparr>)"

text \<open>\<^verbatim>\<open>s.rfind(c)\<close>: the index of the last occurrence, \<open>-1\<close> when there is none.\<close>

fun find_last :: "char \<Rightarrow> string \<Rightarrow> nat \<Rightarrow> int \<Rightarrow> int" where
  "find_last c [] i r = r"
| "find_last c (x # xs) i r = find_last c xs (Suc i) (if x = c then int i else r)"

definition rfind :: "string \<Rightarrow> char \<Rightarrow> int" where
  "rfind s c = find_last c s 0 (- 1)"

text \<open>\<^verbatim>\<open>path.stem\<close> and \<^verbatim>\<open>path.suffix\<close>: the name is cut at its last dot, unless that dot
  is the first or the last character of the name.\<close>

definition path_stem :: "pure_path \<Rightarrow> string" where
  "path_stem P =
     (let name = path_name P; i = rfind name CHR ''.''
      in if 0 < i \<and> i < int (length name) - 1 then take (nat i) name else name)"

definition path_suffix :: "pure_path \<Rightarrow> string" where
  "path_suffix P =
     (let name = path_name P; i = rfind name CHR ''.''
      in if 0 < i \<and> i < int (length name) - 1 then drop (nat i) name else [])"

text \<open>The path itself and every ancestor of it, outermost first: what
  \<^verbatim>\<open>mkdir(parents=True)\<close> may have to create.\<close>

definition ancestors_or_self :: "pure_path \<Rightarrow> pure_path list" where
  "ancestors_or_self P = map (\<lambda>k. P\<lparr>p_tail := take k (p_tail P)\<rparr>) [0 ..< Suc (length (p_tail P))]"

subsection \<open>The file system and file objects\<close>

text \<open>
  The file system is a state: \<open>resolve\<close> is the operating system's name resolution (it
  sends every path string to the location it denotes, so two spellings of one file
  resolve alike), \<open>files\<close> holds the contents of the regular files, \<open>dirs\<close> the
  directories. \<open>fault\<close> stands for every other reason the operating system may have to
  refuse an operation (permissions, a full disk, a device error, a path with an embedded
  null byte): it names the exception the operation raises, if any.
\<close>

datatype io_op =
    OpenRead string
  | Seek nat nat
  | Tell
  | Read "nat option"
  | Mkdir string
  | OpenWrite string
  | Write string

record 'l filesystem =
  resolve :: "string \<Rightarrow> 'l"
  files :: "'l \<rightharpoonup> byte list"
  dirs :: "'l set"
  fault :: "io_op \<Rightarrow> py_exn option"

record file_obj =
  f_data :: "byte list"
  f_pos :: nat

text \<open>\<^verbatim>\<open>repr\<close> of a path in an error message (exact for a path without quotes,
  backslashes and unprintable characters).\<close>

definition py_repr :: "string \<Rightarrow> string" where
  "py_repr s = [CHR 0x27] @ s @ [CHR 0x27]"

text \<open>\<^verbatim>\<open>open(path, 'rb')\<close>\<close>

definition open_rb :: "'l filesystem \<Rightarrow> string \<Rightarrow> py_exn + file_obj" where
  "open_rb fs path =
     (case fault fs (OpenRead path) of
        Some e \<Rightarrow> Inl e
      | None \<Rightarrow>
          if resolve fs path \<in> dirs fs
          then Inl (OSError (''[Errno 21] Is a directory: '' @ py_repr path))
          else (case files fs (resolve fs path) of
                  None \<Rightarrow> Inl (FileNotFoundError
                            (''[Errno 2] No such file or directory: '' @ py_repr path))
                | Some d \<Rightarrow> Inr \<lparr>f_data = d, f_pos = 0\<rparr>))"

text \<open>\<^verbatim>\<open>f.seek(offset, whence)\<close>, \<^verbatim>\<open>f.tell()\<close>, \<^verbatim>\<open>f.read(size)\<close> and \<^verbatim>\<open>f.read()\<close>\<close>

definition f_seek :: "'l filesystem \<Rightarrow> file_obj \<Rightarrow> nat \<Rightarrow> nat \<Rightarrow> py_exn + file_obj" where
  "f_seek fs f offset whence =
     (case fault fs (Seek offset whence) of
        Some e \<Rightarrow> Inl e
      | None \<Rightarrow>
          if whence = 0 then Inr (f\<lparr>f_pos := offset\<rparr>)
          else if whence = 1 then Inr (f\<lparr>f_pos := f_pos f + offset\<rparr>)
          else if whence = 2 then Inr (f\<lparr>f_pos := length (f_data f) + offset\<rparr>)
          else Inl (ValueError (''invalid whence ('' @ py_str whence @ '', should be 0, 1 or 2)'')))"

definition f_tell :: "'l filesystem \<Rightarrow> file_obj \<Rightarrow> py_exn + nat" where
  "f_tell fs f = (case fault fs Tell of Some e \<Rightarrow> Inl e | None \<Rightarrow> Inr (f_pos f))"

definition f_read :: "'l filesystem \<Rightarrow> file_obj \<Rightarrow> nat option \<Rightarrow> py_exn + (byte list \<times> file_obj)" where
  "f_read fs f n =
     (case fault fs (Read n) of
        Some e \<Rightarrow> Inl e
      | None \<Rightarrow>
          let rest = drop (f_pos f) (f_data f);
              b = (case n of None \<Rightarrow> rest | Some k \<Rightarrow> take k rest)
          in Inr (b, f\<lparr>f_pos := f_pos f + length b\<rparr>))"

text \<open>\<^verbatim>\<open>path.is_dir()\<close>\<close>

definition is_dir :: "'l filesystem \<Rightarrow> pure_path \<Rightarrow> bool" where
  "is_dir fs P = (resolve fs (path_str P) \<in> dirs fs)"

text \<open>
  \<^verbatim>\<open>os.mkdir(path)\<close>, the system call. A refusal for a reason of its own (\<open>fault\<close>) comes
  first. Then the ancestors of the path are walked from the outermost one, and the first
  that is not a directory ends the call, with \<^verbatim>\<open>ENOTDIR\<close> when it is a file and with \<^verbatim>\<open>ENOENT\<close>
  when it does not exist; a path that exists already is refused with \<^verbatim>\<open>EEXIST\<close>; otherwise
  the directory is made.
\<close>

definition os_mkdir :: "'l filesystem \<Rightarrow> pure_path \<Rightarrow> py_exn + 'l filesystem" where
  "os_mkdir fs P =
     (case fault fs (Mkdir (path_str P)) of
        Some e \<Rightarrow> Inl e
      | None \<Rightarrow>
          (case find (\<lambda>Q. \<not> is_dir fs Q) (butlast (ancestors_or_self P)) of
             Some Q \<Rightarrow>
               if files fs (resolve fs (path_str Q)) = None
               then Inl (FileNotFoundError
                           (''[Errno 2] No such file or directory: '' @ py_repr (path_str P)))
               else Inl (OSError (''[Errno 20] Not a directory: '' @ py_repr (path_str P)))
           | None \<Rightarrow>
               if is_dir fs P \<or> files fs (resolve fs (path_str P)) \<noteq> None
               then Inl (OSError (''[Errno 17] File exists: '' @ py_repr (path_str P)))
               else Inr (fs\<lparr>dirs := insert (resolve fs (path_str P)) (dirs fs)\<rparr>)))"

text \<open>
  \<^verbatim>\<open>Path.mkdir(parents, exist_ok=True)\<close> of \<^verbatim>\<open>pathlib\<close>: on \<^verbatim>\<open>FileNotFoundError\<close> the parent is made
  first (with its own missing parents) and the directory is tried once more; any other
  \<^verbatim>\<open>OSError\<close> is dropped when the path is a directory and raised again when it is not. The
  result is the exception raised, if any, and the file system with the directories made up
  to that point.
\<close>

function mkdir :: "'l filesystem \<Rightarrow> pure_path \<Rightarrow> bool \<Rightarrow> (py_exn + unit) \<times> 'l filesystem" where
  "mkdir fs P parents =
     (case os_mkdir fs P of
        Inr fs1 \<Rightarrow> (Inr (), fs1)
      | Inl e \<Rightarrow>
          if is_FileNotFoundError e then
            if \<not> parents \<or> path_parent P = P then (Inl e, fs)
            else (case mkdir fs (path_parent P) True of
                    (Inl e1, fs1) \<Rightarrow> (Inl e1, fs1)
                  | (Inr u, fs1) \<Rightarrow> mkdir fs1 P False)
          else if is_OSError e then
            if is_dir fs P then (Inr (), fs) else (Inl e, fs)
          else (Inl e, fs))"
  by pat_completeness auto
termination
proof (relation "measure (\<lambda>(fs, P, parents). 2 * length (p_tail P) + (if parents then 1 else 0))",
    goal_cases)
  case 1
  show ?case by simp
next
  case (2 fs P parents e)
  then have "p_tail P \<noteq> []"
    by (auto simp: path_parent_def)
  with 2 show ?case
    by (auto simp: path_parent_def)
next
  case 3
  then show ?case by auto
qed

declare mkdir.simps [simp del]

text \<open>\<^verbatim>\<open>open(path, 'wb')\<close> creates the file or truncates it; \<^verbatim>\<open>out.write(data)\<close>
  together with the flush on leaving the \<^verbatim>\<open>with\<close> block stores the bytes.\<close>

definition open_wb :: "'l filesystem \<Rightarrow> string \<Rightarrow> py_exn + 'l filesystem" where
  "open_wb fs path =
     (case fault fs (OpenWrite path) of
        Some e \<Rightarrow> Inl e
      | None \<Rightarrow>
          if resolve fs path \<in> dirs fs
          then Inl (OSError (''[Errno 21] Is a directory: '' @ py_repr path))
          else Inr (fs\<lparr>files := (files fs)(resolve fs path \<mapsto> [])\<rparr>))"

definition f_write :: "'l filesystem \<Rightarrow> string \<Rightarrow> byte list \<Rightarrow> py_exn + 'l filesystem" where
  "f_write fs path data =
     (case fault fs (Write path) of
        Some e \<Rightarrow> Inl e
      | None \<Rightarrow> Inr (fs\<lparr>files := (files fs)(resolve fs path \<mapsto> data)\<rparr>))"

subsection \<open>convert_ctex_to_image\<close>

text \<open>The returned tuple \<^verbatim>\<open>(success, output_path, error_message)\<close>.\<close>

type_synonym conv_result = "bool \<times> string \<times> string"

text \<open>\<^verbatim>\<open>if output_dir:\<close> holds for a string that is neither \<^verbatim>\<open>None\<close> nor empty.\<close>

definition truthy :: "string option \<Rightarrow> bool" where
  "truthy output_dir = (case output_dir of None \<Rightarrow> False | Some d \<Rightarrow> d \<noteq> [])"

text \<open>Lines 62 to 66: the output path.\<close>

definition output_path_of :: "string \<Rightarrow> string option \<Rightarrow> string \<Rightarrow> pure_path" where
  "output_path_of ctex_path output_dir ext =
     (let ctex_file = Path ctex_path
      in if truthy output_dir then truediv (Path (the output_dir)) (path_stem ctex_file @ ext)
         else truediv (path_parent ctex_file) (path_stem ctex_file @ ext))"

text \<open>One statement of the \<^verbatim>\<open>try\<close> block that may raise: an exception ends the
  block with the file system as it is at that point, a value goes on to the rest.
  (\<^verbatim>\<open>mkdir\<close> hands back the file system in both cases, so it is taken apart first.)\<close>

definition step ::
  "py_exn + 'a \<Rightarrow> 's \<Rightarrow> ('a \<Rightarrow> (py_exn + 'b) \<times> 's) \<Rightarrow> (py_exn + 'b) \<times> 's" where
  "step m s rest = (case m of Inl e \<Rightarrow> (Inl e, s) | Inr x \<Rightarrow> rest x)"

text \<open>The body of the \<^verbatim>\<open>try\<close> block, lines 23 to 82. The result is the exception raised or
  the tuple returned, and the file system as the body leaves it.\<close>

definition convert_try_body ::
  "'l filesystem \<Rightarrow> string \<Rightarrow> string option \<Rightarrow> (py_exn + conv_result) \<times> 'l filesystem" where
  "convert_try_body fs ctex_path output_dir =
     step (open_rb fs ctex_path) fs (\<lambda>f0.
     step (f_seek fs f0 0 2) fs (\<lambda>f1.
     step (f_tell fs f1) fs (\<lambda>file_size.
     step (f_seek fs f1 0 0) fs (\<lambda>f2.
     if file_size < 56
     then (Inr (False, [],
                ''File too small ('' @ py_str file_size @ '' bytes), minimum 56 bytes required''), fs)
     else
     step (f_seek fs f2 36 0) fs (\<lambda>f3.
     step (f_read fs f3 (Some 4)) fs (\<lambda>(format_bytes, f4).
     if length format_bytes < 4
     then (Inr (False, [], ''Failed to read format information''), fs)
     else
     step (struct_unpack_I format_bytes) fs (\<lambda>format_type.
     step (f_seek fs f4 56 0) fs (\<lambda>f5.
     step (f_read fs f5 None) fs (\<lambda>(image_data, f6).
     if image_data = []
     then (Inr (False, [], ''No image data found after header''), fs)
     else
     let ext = format_ext format_type;
         output_path = output_path_of ctex_path output_dir ext
     in
     (case mkdir fs (path_parent output_path) True of (made, fs1) \<Rightarrow>
     step made fs1 (\<lambda>_.
     step (open_wb fs1 (path_str output_path)) fs1 (\<lambda>fs2.
     step (f_write fs2 (path_str output_path) image_data) fs2 (\<lambda>fs3.
     (Inr (True, path_str output_path,
           ''Format: '' @ format_name format_type @ '', Size: '' @ py_str (length image_data)
             @ '' bytes''), fs3))))))))))))))"

text \<open>The whole function: \<^verbatim>\<open>except Exception as e\<close> turns an exception that derives from
  \<^verbatim>\<open>Exception\<close> into a failure tuple; any other exception passes through.\<close>

definition convert_ctex_to_image ::
  "'l filesystem \<Rightarrow> string \<Rightarrow> string option \<Rightarrow> (py_exn + conv_result) \<times> 'l filesystem" where
  "convert_ctex_to_image fs ctex_path output_dir =
     (case convert_try_body fs ctex_path output_dir of
        (Inl e, fs') \<Rightarrow>
          if is_Exception e
          then (Inr (False, [], ''Error processing file: '' @ exn_str e), fs')
          else (Inl e, fs')
      | (Inr r, fs') \<Rightarrow> (Inr r, fs'))"

subsection \<open>find_ctex_files\<close>

text \<open>
  A directory as \<^verbatim>\<open>os.walk\<close> sees it: the names of its entries that are not directories
  and its subdirectories by name. \<^verbatim>\<open>os.walk\<close> lists a directory before it descends into
  the subdirectories, in the order of the listing.
\<close>

datatype dir_tree = Dir (dir_files: "string list") (dir_subdirs: "(string \<times> dir_tree) list")

text \<open>\<^verbatim>\<open>os.path.join(a, b)\<close> on POSIX\<close>

definition os_path_join :: "string \<Rightarrow> string \<Rightarrow> string" where
  "os_path_join a b =
     (if take 1 b = ''/'' then b
      else if a = [] \<or> endswith a ''/'' then a @ b
      else a @ ''/'' @ b)"

fun os_walk :: "string \<Rightarrow> dir_tree \<Rightarrow> (string \<times> string list \<times> string list) list" where
  "os_walk top_dir (Dir fnames subs) =
     (top_dir, map fst subs, fnames)
       # concat (map (\<lambda>(n, d). os_walk (os_path_join top_dir n) d) subs)"

text \<open>The inner loop, lines 99 to 101, and the outer loop, line 98; \<open>ctex_files\<close> is the
  list being appended to.\<close>

fun files_loop :: "string \<Rightarrow> string list \<Rightarrow> string list \<Rightarrow> string list" where
  "files_loop root [] ctex_files = ctex_files"
| "files_loop root (file # rest) ctex_files =
     files_loop root rest
       (if endswith (lower file) ''.ctex'' then ctex_files @ [os_path_join root file]
        else ctex_files)"

fun walk_loop :: "(string \<times> string list \<times> string list) list \<Rightarrow> string list \<Rightarrow> string list" where
  "walk_loop [] ctex_files = ctex_files"
| "walk_loop ((root, dnames, fnames) # rest) ctex_files =
     walk_loop rest (files_loop root fnames ctex_files)"

definition find_ctex_files :: "string \<Rightarrow> dir_tree \<Rightarrow> string list" where
  "find_ctex_files directory tree = walk_loop (os_walk directory tree) []"

subsection \<open>Notions used in the statements\<close>

text \<open>The operations on the open input file, in the order of the source. \<open>reads_succeed\<close>
  says that the operating system refuses none of them.\<close>

definition read_ops :: "io_op list" where
  "read_ops = [Seek 0 2, Tell, Seek 0 0, Seek 36 0, Read (Some 4), Seek 56 0, Read None]"

definition reads_succeed :: "'l filesystem \<Rightarrow> bool" where
  "reads_succeed fs = list_all (\<lambda>op. fault fs op = None) read_ops"

text \<open>
  What the specification of the discovery speaks of. \<open>tree_file top_dir t r f\<close>: the
  tree \<open>t\<close>, reached under the path \<open>top_dir\<close>, holds a file named \<open>f\<close> in its directory of
  path \<open>r\<close>, at any depth. \<open>matches_ctex name\<close>: the last five characters of the name are
  \<^verbatim>\<open>.ctex\<close> in any mixture of upper and lower case.
\<close>

inductive tree_file :: "string \<Rightarrow> dir_tree \<Rightarrow> string \<Rightarrow> string \<Rightarrow> bool" where
  here: "f \<in> set fnames \<Longrightarrow> tree_file top_dir (Dir fnames subs) top_dir f"
| below: "(n, d) \<in> set subs \<Longrightarrow> tree_file (os_path_join top_dir n) d r f
            \<Longrightarrow> tree_file top_dir (Dir fnames subs) r f"

code_pred tree_file .

definition matches_ctex :: "string \<Rightarrow> bool" where
  "matches_ctex name = (lower (drop (length name - 5) name) = ''.ctex'')"

text \<open>The example of the specification: a file of 60 bytes whose bytes 36 to 39 hold the
  tag 1 and whose payload is the four bytes of the PNG signature, in a file system where
  nothing else exists; \<open>ex_fs_after\<close> is that file system after the conversion.
  \<open>ex_fs_denied\<close> is the same file system when the input file may not be read.\<close>

definition ex_data :: "byte list" where
  "ex_data = [0, 0, 0, 0, 0, 0, 0, 0, 0, 0, 0, 0, 0, 0, 0, 0, 0, 0,
              0, 0, 0, 0, 0, 0, 0, 0, 0, 0, 0, 0, 0, 0, 0, 0, 0, 0,
              1, 0, 0, 0,
              0, 0, 0, 0, 0, 0, 0, 0, 0, 0, 0, 0, 0, 0, 0, 0,
              0x89, 0x50, 0x4E, 0x47]"

definition ex_fs :: "string filesystem" where
  "ex_fs = \<lparr>resolve = (\<lambda>s. s), files = [''t/a.ctex'' \<mapsto> ex_data], dirs = {},
            fault = (\<lambda>_. None)\<rparr>"

definition ex_fs_after :: "string filesystem" where
  "ex_fs_after = ex_fs\<lparr>dirs := {''.'', ''t''},
     files := [''t/a.ctex'' \<mapsto> ex_data, ''t/a.png'' \<mapsto> [0x89, 0x50, 0x4E, 0x47]]\<rparr>"

text \<open>The example converted into the output directory \<^verbatim>\<open>o\<close>.\<close>

definition ex_fs_after_dir :: "string filesystem" where
  "ex_fs_after_dir = ex_fs\<lparr>dirs := {''.'', ''o''},
     files := [''t/a.ctex'' \<mapsto> ex_data, ''o/a.png'' \<mapsto> [0x89, 0x50, 0x4E, 0x47]]\<rparr>"

definition ex_fs_denied :: "string filesystem" where
  "ex_fs_denied = ex_fs\<lparr>fault :=
     (\<lambda>op. if op = OpenRead ''t/a.ctex'' then Some (OSError ''[Errno 13] Permission denied'')
           else None)\<rparr>"

text \<open>A file that holds the header and nothing else.\<close>

definition ex_fs_header_only :: "string filesystem" where
  "ex_fs_header_only = \<lparr>resolve = (\<lambda>s. s), files = [''h.ctex'' \<mapsto> take 56 ex_data],
                        dirs = {}, fault = (\<lambda>_. None)\<rparr>"

text \<open>
  How a path is spelled: \<open>spelling r comps\<close> says that \<open>r @ join_sep comps\<close> is a path string
  with the root \<open>r\<close> (none, \<^verbatim>\<open>/\<close> or \<^verbatim>\<open>//\<close>) and the components \<open>comps\<close> between its slashes.
  Empty components (doubled or trailing slashes) and \<^verbatim>\<open>.\<close> do not count; \<open>kept comps\<close> are the
  components that do.
\<close>

definition kept :: "string list \<Rightarrow> string list" where
  "kept comps = filter (\<lambda>c. c \<noteq> [] \<and> c \<noteq> ''.'') comps"

definition spelling :: "string \<Rightarrow> string list \<Rightarrow> bool" where
  "spelling r comps =
     ((r = [] \<or> r = ''/'' \<or> r = ''//'') \<and> (comps = [] \<or> hd comps \<noteq> [])
      \<and> (\<forall>c \<in> set comps. CHR ''/'' \<notin> set c))"

text \<open>A home directory that holds three container files: \<^verbatim>\<open>a.ctex\<close> is the example above,
  the hidden file \<^verbatim>\<open>.ctex\<close> has the tag 2 and \<^verbatim>\<open>n.ctex\<close> the tag 9, all with the same payload.
  \<open>ex_written fs out\<close> is \<open>fs\<close> once that payload has been written to \<open>out\<close>.\<close>

definition ex_fs_abs :: "string filesystem" where
  "ex_fs_abs = \<lparr>resolve = (\<lambda>s. s),
       files = [''/home/u/a.ctex'' \<mapsto> ex_data, ''/home/u/.ctex'' \<mapsto> ex_data[36 := 2],
                ''/home/u/n.ctex'' \<mapsto> ex_data[36 := 9]],
       dirs = {''/'', ''/home'', ''/home/u''}, fault = (\<lambda>_. None)\<rparr>"

definition ex_written :: "string filesystem \<Rightarrow> string \<Rightarrow> string filesystem" where
  "ex_written fs out = fs\<lparr>files := (files fs)(out \<mapsto> [0x89, 0x50, 0x4E, 0x47])\<rparr>"

section \<open>Properties\<close>

subsection \<open>The statements of the try block\<close>

lemma step_Inl [simp]: "step (Inl e) s k = (Inl e, s)"
  by (simp add: step_def)

lemma step_Inr [simp]: "step (Inr x) s k = k x"
  by (simp add: step_def)

lemma step_eq_Inr:
  "step m s k = (Inr r, s') \<longleftrightarrow> (\<exists>x. m = Inr x \<and> k x = (Inr r, s'))"
  by (cases m) simp_all

lemma step_eq_Inl:
  "step m s k = (Inl e, s') \<longleftrightarrow> (m = Inl e \<and> s' = s) \<or> (\<exists>x. m = Inr x \<and> k x = (Inl e, s'))"
  by (cases m) auto

lemma open_rb_Inr:
  "open_rb fs p = Inr f \<Longrightarrow>
     f_pos f = 0 \<and> files fs (resolve fs p) = Some (f_data f) \<and> resolve fs p \<notin> dirs fs
       \<and> fault fs (OpenRead p) = None"
  by (auto simp: open_rb_def split: option.splits if_splits)

subsection \<open>Creating directories\<close>

lemma os_mkdir_Inr:
  "os_mkdir fs P = Inr fs1 \<Longrightarrow>
     fs1 = fs\<lparr>dirs := insert (resolve fs (path_str P)) (dirs fs)\<rparr>
     \<and> fault fs (Mkdir (path_str P)) = None
     \<and> (\<forall>Q \<in> set (butlast (ancestors_or_self P)). is_dir fs Q)
     \<and> files fs (resolve fs (path_str P)) = None"
  by (auto simp: os_mkdir_def find_None_iff split: option.splits if_splits)

lemma os_mkdir_Inl:
  "os_mkdir fs P = Inl e \<Longrightarrow>
     fault fs (Mkdir (path_str P)) = Some e
     \<or> fault fs (Mkdir (path_str P)) = None
        \<and> (case find (\<lambda>Q. \<not> is_dir fs Q) (butlast (ancestors_or_self P)) of
              Some Q \<Rightarrow> if files fs (resolve fs (path_str Q)) = None then is_FileNotFoundError e
                        else is_OSError e \<and> \<not> is_FileNotFoundError e
            | None \<Rightarrow> is_OSError e \<and> \<not> is_FileNotFoundError e)"
  by (auto simp: os_mkdir_def split: option.splits if_splits)

lemma os_mkdir_raise:
  "os_mkdir fs P = Inl e \<Longrightarrow> \<forall>op x. fault fs op = Some x \<longrightarrow> is_Exception x \<Longrightarrow> is_Exception e"
  by (auto simp: os_mkdir_def split: option.splits if_splits)

lemma mkdir_made: "os_mkdir fs P = Inr fs1 \<Longrightarrow> mkdir fs P b = (Inr (), fs1)"
  by (simp add: mkdir.simps[of fs P b])

lemma mkdir_recurse:
  "os_mkdir fs P = Inl e \<Longrightarrow> is_FileNotFoundError e \<Longrightarrow> b \<Longrightarrow> path_parent P \<noteq> P \<Longrightarrow>
     mkdir fs P b = (case mkdir fs (path_parent P) True of
                       (Inl e1, fs1) \<Rightarrow> (Inl e1, fs1)
                     | (Inr u, fs1) \<Rightarrow> mkdir fs1 P False)"
  by (subst mkdir.simps) simp

lemma mkdir_not_found:
  "os_mkdir fs P = Inl e \<Longrightarrow> is_FileNotFoundError e \<Longrightarrow> \<not> b \<or> path_parent P = P \<Longrightarrow>
     mkdir fs P b = (Inl e, fs)"
  by (auto simp: mkdir.simps[of fs P b])

lemma mkdir_os_error:
  "os_mkdir fs P = Inl e \<Longrightarrow> \<not> is_FileNotFoundError e \<Longrightarrow>
     mkdir fs P b = (if is_OSError e \<and> is_dir fs P then (Inr (), fs) else (Inl e, fs))"
  by (simp add: mkdir.simps[of fs P b])

text \<open>\<^verbatim>\<open>mkdir\<close> only adds directories, and only at places where no file is.\<close>

lemma mkdir_frame:
  "mkdir fs P b = (r, fs1) \<Longrightarrow>
     fs1 = fs\<lparr>dirs := dirs fs1\<rparr> \<and> dirs fs \<subseteq> dirs fs1
     \<and> (\<forall>l \<in> dirs fs1 - dirs fs. files fs l = None)"
proof (induction fs P b arbitrary: r fs1 rule: mkdir.induct)
  case (1 fs P parents)
  show ?case
  proof (cases "os_mkdir fs P")
    case (Inr fs2)
    with "1.prems" os_mkdir_Inr[OF Inr] show ?thesis
      by (auto simp: mkdir_made)
  next
    case (Inl e)
    show ?thesis
    proof (cases "is_FileNotFoundError e \<and> parents \<and> path_parent P \<noteq> P")
      case False
      with "1.prems" Inl show ?thesis
        by (cases "is_FileNotFoundError e")
          (auto simp: mkdir_not_found mkdir_os_error split: if_splits)
    next
      case True
      obtain r1 fs2 where p: "mkdir fs (path_parent P) True = (r1, fs2)"
        by (cases "mkdir fs (path_parent P) True") auto
      from "1.IH"(1)[OF Inl _ _ p] True
      have f1: "fs2 = fs\<lparr>dirs := dirs fs2\<rparr> \<and> dirs fs \<subseteq> dirs fs2
                  \<and> (\<forall>l \<in> dirs fs2 - dirs fs. files fs l = None)"
        by simp
      show ?thesis
      proof (cases r1)
        case (Inl e1)
        with "1.prems" \<open>os_mkdir fs P = Inl e\<close> True p f1 show ?thesis
          by (simp add: mkdir_recurse)
      next
        case (Inr u)
        with "1.prems" \<open>os_mkdir fs P = Inl e\<close> True p
        have q: "mkdir fs2 P False = (r, fs1)"
          by (simp add: mkdir_recurse)
        from "1.IH"(2)[OF \<open>os_mkdir fs P = Inl e\<close> _ _ p[symmetric] _ q] True Inr
        have f2: "fs1 = fs2\<lparr>dirs := dirs fs1\<rparr> \<and> dirs fs2 \<subseteq> dirs fs1
                  \<and> (\<forall>l \<in> dirs fs1 - dirs fs2. files fs2 l = None)"
          by simp
        from f1 f2 show ?thesis
          by (cases fs; cases fs1; cases fs2) auto
      qed
    qed
  qed
qed

lemma find_SomeD2: "find p xs = Some x \<Longrightarrow> x \<in> set xs \<and> p x"
  by (induction xs) (auto split: if_splits)

lemma mkdir_fault: "mkdir fs P b = (r, fs1) \<Longrightarrow> fault fs1 = fault fs"
  using mkdir_frame[of fs P b r fs1] by (cases fs; cases fs1) auto

lemma mkdir_files: "mkdir fs P b = (r, fs1) \<Longrightarrow> files fs1 = files fs"
  using mkdir_frame[of fs P b r fs1] by (cases fs; cases fs1) auto

lemma mkdir_resolve: "mkdir fs P b = (r, fs1) \<Longrightarrow> resolve fs1 = resolve fs"
  using mkdir_frame[of fs P b r fs1] by (cases fs; cases fs1) auto

lemma mkdir_raise:
  "mkdir fs P b = (Inl e, fs1) \<Longrightarrow> \<forall>op x. fault fs op = Some x \<longrightarrow> is_Exception x
     \<Longrightarrow> is_Exception e"
proof (induction fs P b arbitrary: fs1 rule: mkdir.induct)
  case (1 fs P parents)
  show ?case
  proof (cases "os_mkdir fs P")
    case (Inr fs2)
    with "1.prems" show ?thesis by (simp add: mkdir_made)
  next
    case (Inl x)
    note x = Inl
    from os_mkdir_raise[OF x "1.prems"(2)] have ex: "is_Exception x" .
    show ?thesis
    proof (cases "is_FileNotFoundError x \<and> parents \<and> path_parent P \<noteq> P")
      case False
      with "1.prems"(1) x ex show ?thesis
        by (cases "is_FileNotFoundError x")
          (auto simp: mkdir_not_found mkdir_os_error split: if_splits)
    next
      case True
      obtain r1 fs2 where p: "mkdir fs (path_parent P) True = (r1, fs2)"
        by (cases "mkdir fs (path_parent P) True") auto
      show ?thesis
      proof (cases r1)
        case (Inl e1)
        with "1.prems"(1) x True p have "e1 = e" "fs2 = fs1"
          by (simp_all add: mkdir_recurse)
        with "1.IH"(1)[OF x _ _ _ "1.prems"(2), of fs1] True p Inl show ?thesis
          by simp
      next
        case (Inr u)
        with "1.prems"(1) x True p have q: "mkdir fs2 P False = (Inl e, fs1)"
          by (simp add: mkdir_recurse)
        from mkdir_fault[OF p] "1.prems"(2)
        have c: "\<forall>op x. fault fs2 op = Some x \<longrightarrow> is_Exception x" by simp
        from "1.IH"(2)[OF x _ _ p[symmetric] _ q c] True Inr show ?thesis
          by simp
      qed
    qed
  qed
qed

text \<open>After a successful \<^verbatim>\<open>mkdir\<close> the path is a directory, and \<^verbatim>\<open>os.mkdir\<close> on it would be
  refused with an \<^verbatim>\<open>OSError\<close> other than \<^verbatim>\<open>FileNotFoundError\<close>.\<close>

lemma mkdir_Inr:
  "mkdir fs P b = (Inr u, fs1) \<Longrightarrow>
     is_dir fs1 P
     \<and> ((\<exists>e. fault fs (Mkdir (path_str P)) = Some e \<and> is_OSError e \<and> \<not> is_FileNotFoundError e)
        \<or> fault fs (Mkdir (path_str P)) = None
          \<and> (\<forall>Q. find (\<lambda>Q. \<not> is_dir fs1 Q) (butlast (ancestors_or_self P)) = Some Q
                 \<longrightarrow> files fs (resolve fs (path_str Q)) \<noteq> None))"
proof (induction fs P b arbitrary: fs1 rule: mkdir.induct)
  case (1 fs P parents)
  show ?case
  proof (cases "os_mkdir fs P")
    case (Inr fs2)
    with "1.prems" have "fs2 = fs1" by (simp add: mkdir_made)
    with os_mkdir_Inr[OF Inr] show ?thesis
      by (auto simp: is_dir_def dest!: find_SomeD2)
  next
    case (Inl x)
    note x = Inl
    show ?thesis
    proof (cases "is_FileNotFoundError x \<and> parents \<and> path_parent P \<noteq> P")
      case False
      show ?thesis
      proof (cases "is_FileNotFoundError x")
        case True
        with False "1.prems" x show ?thesis by (simp add: mkdir_not_found)
      next
        case nf: False
        with "1.prems" x have "is_OSError x" "is_dir fs P" "fs1 = fs"
          by (auto simp: mkdir_os_error split: if_splits)
        with os_mkdir_Inl[OF x] nf show ?thesis
          by (auto split: option.splits if_splits)
      qed
    next
      case True
      obtain r1 fs2 where p: "mkdir fs (path_parent P) True = (r1, fs2)"
        by (cases "mkdir fs (path_parent P) True") auto
      show ?thesis
      proof (cases r1)
        case (Inl e1)
        with "1.prems" x True p show ?thesis
          by (simp add: mkdir_recurse)
      next
        case (Inr v)
        with "1.prems" x True p have q: "mkdir fs2 P False = (Inr u, fs1)"
          by (simp add: mkdir_recurse)
        from "1.IH"(2)[OF x _ _ p[symmetric] _ q] True Inr
        have "is_dir fs1 P
     \<and> ((\<exists>e. fault fs2 (Mkdir (path_str P)) = Some e \<and> is_OSError e \<and> \<not> is_FileNotFoundError e)
        \<or> fault fs2 (Mkdir (path_str P)) = None
          \<and> (\<forall>Q. find (\<lambda>Q. \<not> is_dir fs1 Q) (butlast (ancestors_or_self P)) = Some Q
                 \<longrightarrow> files fs2 (resolve fs2 (path_str Q)) \<noteq> None))"
          by simp
        then show ?thesis
          by (simp add: mkdir_fault[OF p] mkdir_files[OF p] mkdir_resolve[OF p])
      qed
    qed
  qed
qed

text \<open>Running \<^verbatim>\<open>mkdir\<close> again, in a state with the same directories where files may have been
  written, changes nothing.\<close>

lemma mkdir_again:
  assumes m: "mkdir fs P b = (Inr u, fs1)"
    and r: "resolve fs2 = resolve fs" and f: "fault fs2 = fault fs" and d: "dirs fs2 = dirs fs1"
    and g: "\<forall>l. files fs l \<noteq> None \<longrightarrow> files fs2 l \<noteq> None"
  shows "mkdir fs2 P b = (Inr (), fs2)"
proof -
  from mkdir_resolve[OF m] r d have dd: "is_dir fs2 Q = is_dir fs1 Q" for Q
    by (simp add: is_dir_def)
  then have fd: "(\<lambda>Q. \<not> is_dir fs2 Q) = (\<lambda>Q. \<not> is_dir fs1 Q)" by auto
  from mkdir_Inr[OF m] have dir: "is_dir fs2 P" by (simp add: dd)
  from g have g': "files fs l = None" if "files fs2 l = None" for l
    using that by auto
  have "\<exists>e. os_mkdir fs2 P = Inl e \<and> is_OSError e \<and> \<not> is_FileNotFoundError e"
    using mkdir_Inr[OF m] dir
    by (auto simp: os_mkdir_def f r fd split: option.splits dest: g')
  then obtain e where "os_mkdir fs2 P = Inl e" "is_OSError e" "\<not> is_FileNotFoundError e"
    by blast
  with dir show ?thesis
    by (simp add: mkdir_os_error)
qed

lemma ancestors_root: "p_tail P = [] \<Longrightarrow> ancestors_or_self P = [P]"
  by (simp add: ancestors_or_self_def)

lemma ancestors_snoc:
  assumes "p_tail P \<noteq> []"
  shows "ancestors_or_self P = ancestors_or_self (path_parent P) @ [P]"
proof -
  let ?t = "p_tail P"
  from assms have n: "Suc (length (butlast ?t)) = length ?t" by simp
  have "map (\<lambda>k. P\<lparr>p_tail := take k ?t\<rparr>) [0 ..< length ?t]
          = map (\<lambda>k. P\<lparr>p_tail := take k (butlast ?t)\<rparr>) [0 ..< length ?t]"
    by (rule map_cong) (auto simp: take_butlast)
  with assms n show ?thesis
    by (simp add: ancestors_or_self_def path_parent_def)
qed

lemma ancestors_set:
  "set (ancestors_or_self P) = insert P (set (butlast (ancestors_or_self P)))"
  by (cases "p_tail P = []") (simp_all add: ancestors_root[of P] ancestors_snoc[of P])

lemma butlast_ancestors:
  "p_tail P \<noteq> [] \<Longrightarrow> butlast (ancestors_or_self P) = ancestors_or_self (path_parent P)"
  by (simp add: ancestors_snoc[of P])

lemma parent_fixed: "path_parent P = P \<longleftrightarrow> p_tail P = []"
proof
  assume "path_parent P = P"
  then have "p_tail (path_parent P) = p_tail P" by simp
  then show "p_tail P = []"
    by (cases "p_tail P" rule: rev_cases) (auto simp: path_parent_def)
qed (simp add: path_parent_def)

lemma mkdir_is_dir_mono: "mkdir fs P b = (r, fs1) \<Longrightarrow> is_dir fs Q \<Longrightarrow> is_dir fs1 Q"
  using mkdir_frame[of fs P b r fs1] mkdir_resolve[of fs P b r fs1]
  by (auto simp: is_dir_def)

text \<open>In a file system where the parent of a directory is a directory, the ancestors of
  a directory are directories.\<close>

lemma ancestors_of_dir:
  "is_dir fs P \<Longrightarrow> \<forall>Q \<in> set (ancestors_or_self P). is_dir fs Q \<longrightarrow> is_dir fs (path_parent Q)
     \<Longrightarrow> \<forall>Q \<in> set (ancestors_or_self P). is_dir fs Q"
proof (induction "length (p_tail P)" arbitrary: P)
  case 0
  then show ?case by (simp add: ancestors_root[of P])
next
  case (Suc n)
  then have t: "p_tail P \<noteq> []" by auto
  from Suc.prems have a: "is_dir fs (path_parent P)"
    by (simp add: ancestors_snoc[OF t])
  from Suc.hyps(2) t have b: "n = length (p_tail (path_parent P))"
    by (simp add: path_parent_def)
  from Suc.prems(2)
  have c: "\<forall>Q \<in> set (ancestors_or_self (path_parent P)). is_dir fs Q \<longrightarrow> is_dir fs (path_parent Q)"
    by (simp add: ancestors_snoc[OF t])
  from Suc.hyps(1)[OF b a c] have "\<forall>Q \<in> set (ancestors_or_self (path_parent P)). is_dir fs Q" .
  with Suc.prems(1) show ?case
    by (simp add: ancestors_snoc[OF t])
qed

lemma mkdir_ancestors:
  "mkdir fs P b = (Inr u, fs1) \<Longrightarrow>
     \<forall>Q \<in> set (ancestors_or_self P). is_dir fs Q \<longrightarrow> is_dir fs (path_parent Q) \<Longrightarrow>
     \<forall>Q \<in> set (ancestors_or_self P). is_dir fs1 Q"
proof (induction fs P b arbitrary: fs1 rule: mkdir.induct)
  case (1 fs P parents)
  from mkdir_Inr[OF "1.prems"(1)] have self: "is_dir fs1 P" by simp
  show ?case
  proof (cases "os_mkdir fs P")
    case (Inr fs2)
    from os_mkdir_Inr[OF Inr] have "\<forall>Q \<in> set (butlast (ancestors_or_self P)). is_dir fs Q"
      by simp
    with mkdir_is_dir_mono[OF "1.prems"(1)] self show ?thesis
      by (subst ancestors_set) auto
  next
    case (Inl x)
    note x = Inl
    show ?thesis
    proof (cases "is_FileNotFoundError x \<and> parents \<and> path_parent P \<noteq> P")
      case False
      show ?thesis
      proof (cases "is_FileNotFoundError x")
        case True
        with False "1.prems" x show ?thesis by (simp add: mkdir_not_found)
      next
        case nf: False
        with "1.prems"(1) x have "fs1 = fs"
          by (auto simp: mkdir_os_error split: if_splits)
        with self "1.prems"(2) show ?thesis
          using ancestors_of_dir[of fs P] by blast
      qed
    next
      case True
      then have t: "p_tail P \<noteq> []" by (simp add: parent_fixed)
      obtain r1 fs2 where p: "mkdir fs (path_parent P) True = (r1, fs2)"
        by (cases "mkdir fs (path_parent P) True") auto
      show ?thesis
      proof (cases r1)
        case (Inl e1)
        with "1.prems" x True p show ?thesis
          by (simp add: mkdir_recurse)
      next
        case (Inr v)
        with "1.prems" x True p have q: "mkdir fs2 P False = (Inr u, fs1)"
          by (simp add: mkdir_recurse)
        from "1.prems"(2)
        have "\<forall>Q \<in> set (ancestors_or_self (path_parent P)). is_dir fs Q \<longrightarrow> is_dir fs (path_parent Q)"
          by (simp add: ancestors_snoc[OF t])
        with "1.IH"(1)[OF x _ _ _, of fs2] True p Inr
        have "\<forall>Q \<in> set (ancestors_or_self (path_parent P)). is_dir fs2 Q"
          by simp
        with mkdir_is_dir_mono[OF q] self show ?thesis
          by (auto simp: ancestors_snoc[OF t])
      qed
    qed
  qed
qed

lemma mkdir_last:
  assumes "fault fs (Mkdir (path_str P)) = None"
    and "\<forall>Q \<in> set (butlast (ancestors_or_self P)). is_dir fs Q"
    and "files fs (resolve fs (path_str P)) = None"
  shows "mkdir fs P b = (Inr (), fs\<lparr>dirs := insert (resolve fs (path_str P)) (dirs fs)\<rparr>)"
proof -
  from assms(2) have n: "find (\<lambda>Q. \<not> is_dir fs Q) (butlast (ancestors_or_self P)) = None"
    by (simp add: find_None_iff)
  show ?thesis
  proof (cases "is_dir fs P")
    case True
    with assms(1) n
    have "os_mkdir fs P = Inl (OSError (''[Errno 17] File exists: '' @ py_repr (path_str P)))"
      by (simp add: os_mkdir_def)
    from mkdir_os_error[OF this, of b] True show ?thesis
      by (simp add: is_dir_def insert_absorb)
  next
    case False
    with assms(1,3) n
    have "os_mkdir fs P = Inr (fs\<lparr>dirs := insert (resolve fs (path_str P)) (dirs fs)\<rparr>)"
      by (simp add: os_mkdir_def)
    then show ?thesis by (rule mkdir_made)
  qed
qed

text \<open>When nothing is refused and no file is in the way, \<^verbatim>\<open>mkdir(parents=True)\<close> makes the
  path and all its ancestors directories.\<close>

lemma mkdir_creates:
  "\<forall>Q \<in> set (ancestors_or_self P).
      fault fs (Mkdir (path_str Q)) = None \<and> files fs (resolve fs (path_str Q)) = None \<Longrightarrow>
   mkdir fs P True
     = (Inr (), fs\<lparr>dirs := dirs fs \<union> (\<lambda>Q. resolve fs (path_str Q)) ` set (ancestors_or_self P)\<rparr>)"
proof (induction "length (p_tail P)" arbitrary: P)
  case 0
  then have "ancestors_or_self P = [P]" by (simp add: ancestors_root[of P])
  with 0 mkdir_last[of fs P True] show ?case by simp
next
  case (Suc n)
  then have t: "p_tail P \<noteq> []" by auto
  note a = ancestors_snoc[OF t]
  let ?A = "(\<lambda>Q. resolve fs (path_str Q)) ` set (ancestors_or_self (path_parent P))"
  from Suc.prems have fP: "fault fs (Mkdir (path_str P)) = None"
    and nP: "files fs (resolve fs (path_str P)) = None"
    and pre: "\<forall>Q \<in> set (ancestors_or_self (path_parent P)).
      fault fs (Mkdir (path_str Q)) = None \<and> files fs (resolve fs (path_str Q)) = None"
    by (simp_all add: a)
  show ?case
  proof (cases "find (\<lambda>Q. \<not> is_dir fs Q) (butlast (ancestors_or_self P))")
    case None
    then have all: "\<forall>Q \<in> set (butlast (ancestors_or_self P)). is_dir fs Q"
      by (simp add: find_None_iff)
    then have "?A \<subseteq> dirs fs"
      by (auto simp: a is_dir_def)
    then have "dirs fs \<union> (\<lambda>Q. resolve fs (path_str Q)) ` set (ancestors_or_self P)
                 = insert (resolve fs (path_str P)) (dirs fs)"
      by (auto simp: a)
    with mkdir_last[OF fP all nP, of True] show ?thesis by simp
  next
    case (Some Q)
    from find_SomeD2[OF Some] pre have "files fs (resolve fs (path_str Q)) = None"
      by (simp add: a)
    with Some fP have o: "os_mkdir fs P = Inl (FileNotFoundError
        (''[Errno 2] No such file or directory: '' @ py_repr (path_str P)))"
      by (simp add: os_mkdir_def)
    from t have np: "path_parent P \<noteq> P" by (simp add: parent_fixed)
    from Suc.hyps(2) t have l: "n = length (p_tail (path_parent P))"
      by (simp add: path_parent_def)
    let ?fs1 = "fs\<lparr>dirs := dirs fs \<union> ?A\<rparr>"
    from Suc.hyps(1)[OF l pre] have p: "mkdir fs (path_parent P) True = (Inr (), ?fs1)" .
    have "mkdir ?fs1 P False
            = (Inr (), ?fs1\<lparr>dirs := insert (resolve ?fs1 (path_str P)) (dirs ?fs1)\<rparr>)"
      using fP nP by (intro mkdir_last) (auto simp: a is_dir_def)
    with mkdir_recurse[OF o _ _ np, of True] p show ?thesis
      by (simp add: a Un_commute insert_commute)
  qed
qed

lemma mkdir_catchable:
  "mkdir fs P b = (r, fs1) \<Longrightarrow> \<forall>op x. fault fs op = Some x \<longrightarrow> is_Exception x
     \<Longrightarrow> \<forall>op x. fault fs1 op = Some x \<longrightarrow> is_Exception x"
  by (simp add: mkdir_fault)

subsection \<open>The try block on a file that can be read\<close>

text \<open>The body on a file shorter than the header: it returns at line 30.\<close>

lemma body_too_small:
  assumes "open_rb fs p = Inr \<lparr>f_data = d, f_pos = 0\<rparr>"
    and "fault fs (Seek 0 2) = None" and "fault fs Tell = None" and "fault fs (Seek 0 0) = None"
    and "length d < 56"
  shows "convert_try_body fs p od =
    (Inr (False, [],
          ''File too small ('' @ py_str (length d) @ '' bytes), minimum 56 bytes required''), fs)"
  using assms by (simp add: convert_try_body_def f_seek_def f_tell_def)

text \<open>The body on a file that holds the whole header, when every read succeeds: what is
  left is the check of the payload and the three statements that write.\<close>

lemma body_reads:
  assumes "open_rb fs p = Inr \<lparr>f_data = d, f_pos = 0\<rparr>" and "reads_succeed fs"
    and "56 \<le> length d"
  shows "convert_try_body fs p od =
    (if drop 56 d = [] then (Inr (False, [], ''No image data found after header''), fs)
     else
       let format_type = le_value (take 4 (drop 36 d));
           output_path = output_path_of p od (format_ext format_type)
       in (case mkdir fs (path_parent output_path) True of (made, fs1) \<Rightarrow>
          step made fs1 (\<lambda>_.
          step (open_wb fs1 (path_str output_path)) fs1 (\<lambda>fs2.
          step (f_write fs2 (path_str output_path) (drop 56 d)) fs2 (\<lambda>fs3.
          (Inr (True, path_str output_path,
                ''Format: '' @ format_name format_type @ '', Size: '' @ py_str (length d - 56)
                  @ '' bytes''), fs3))))))"
  using assms
  by (simp add: convert_try_body_def f_seek_def f_tell_def f_read_def struct_unpack_I_def
      reads_succeed_def read_ops_def Let_def)

subsection \<open>Files shorter than the header\<close>

text \<open>
  Claim C2. When the input file opens and holds fewer than 56 bytes (and the three
  operations that measure it succeed), \<open>convert_ctex_to_image\<close> returns the failure tuple
  whose message reports the actual size of the file and the minimum of 56 bytes; the
  file system is returned as it was, so no output file has been created and nothing
  has been written.
\<close>

theorem too_small_fails_without_write:
  assumes "open_rb fs ctex_path = Inr \<lparr>f_data = d, f_pos = 0\<rparr>"
    and "fault fs (Seek 0 2) = None" and "fault fs Tell = None" and "fault fs (Seek 0 0) = None"
    and "length d < 56"
  shows "convert_ctex_to_image fs ctex_path output_dir =
    (Inr (False, [],
          ''File too small ('' @ py_str (length d) @ '' bytes), minimum 56 bytes required''), fs)"
  using body_too_small [OF assms] by (simp add: convert_ctex_to_image_def)

text \<open>A three-byte file: the message reports 3 bytes and the file system is unchanged.\<close>

theorem too_small_fails_without_write_witness:
  "open_rb \<lparr>resolve = (\<lambda>s. s), files = [''a.ctex'' \<mapsto> [1, 2, 3]], dirs = {},
            fault = (\<lambda>_. None)\<rparr> ''a.ctex''
     = Inr \<lparr>f_data = [1, 2, 3], f_pos = 0\<rparr>
   \<and> length [1, 2, 3 :: byte] < 56
   \<and> convert_ctex_to_image
       \<lparr>resolve = (\<lambda>s. s), files = [''a.ctex'' \<mapsto> [1, 2, 3]], dirs = {},
        fault = (\<lambda>_. None)\<rparr> ''a.ctex'' None
     = (Inr (False, [], ''File too small (3 bytes), minimum 56 bytes required''),
        \<lparr>resolve = (\<lambda>s. s), files = [''a.ctex'' \<mapsto> [1, 2, 3]], dirs = {},
         fault = (\<lambda>_. None)\<rparr>)"
proof -
  let ?fs = "\<lparr>resolve = (\<lambda>s. s), files = [''a.ctex'' \<mapsto> [1, 2, 3 :: byte]], dirs = {},
              fault = (\<lambda>_. None)\<rparr> :: string filesystem"
  have o: "open_rb ?fs ''a.ctex'' = Inr \<lparr>f_data = [1, 2, 3], f_pos = 0\<rparr>"
    by (simp add: open_rb_def)
  have s: "py_str (Suc (Suc (Suc 0))) = ''3''"
    by code_simp
  show ?thesis
    using too_small_fails_without_write [OF o, of None] o by (simp add: s)
qed

subsection \<open>The example\<close>

lemma ex_open: "open_rb ex_fs ''t/a.ctex'' = Inr \<lparr>f_data = ex_data, f_pos = 0\<rparr>"
  by (simp add: open_rb_def ex_fs_def)

lemma ex_reads: "reads_succeed ex_fs"
  by (simp add: reads_succeed_def read_ops_def ex_fs_def)

lemma ex_len: "length ex_data = 60"
  by (simp add: ex_data_def)
lemma ex_payload: "drop 56 ex_data = [0x89,0x50,0x4E,0x47]"
  by (simp add: ex_data_def)
lemma ex_tag: "le_value (take 4 (drop 36 ex_data)) = 1"
  by (simp add: ex_data_def)
lemma ex_ext: "format_ext (Suc 0) = ''.png''"
  by (simp add: format_ext_def format_map_def dict_get_def)
lemma ex_name: "format_name (Suc 0) = ''PNG''"
  by (simp add: format_name_def format_name_map_def dict_get_def)
lemma ex_path:
  "output_path_of ''t/a.ctex'' None ''.png'' = \<lparr>p_root = [], p_tail = [''t'', ''a.png'']\<rparr>"
  by code_simp
lemma ex_str4: "py_str 4 = ''4''"
  by code_simp
lemma ex_parent:
  "path_parent \<lparr>p_root = [], p_tail = [''t'', ''a.png'']\<rparr> = \<lparr>p_root = [], p_tail = [''t'']\<rparr>"
  by (simp add: path_parent_def)
lemma ex_anc:
  "ancestors_or_self \<lparr>p_root = [], p_tail = [''t'']\<rparr>
     = [\<lparr>p_root = [], p_tail = []\<rparr>, \<lparr>p_root = [], p_tail = [''t'']\<rparr>]"
  by code_simp
lemma ex_str_dot: "path_str \<lparr>p_root = [], p_tail = []\<rparr> = ''.''"
  by (simp add: path_str_def)
lemma ex_str_t: "path_str \<lparr>p_root = [], p_tail = [''t'']\<rparr> = ''t''"
  by (simp add: path_str_def)
lemma ex_str_out: "path_str \<lparr>p_root = [], p_tail = [''t'', ''a.png'']\<rparr> = ''t/a.png''"
  by (simp add: path_str_def)

lemma ex_run:
  "convert_ctex_to_image ex_fs ''t/a.ctex'' None =
     (Inr (True, ''t/a.png'', ''Format: PNG, Size: 4 bytes''), ex_fs_after)"
proof -
  have m: "mkdir ex_fs \<lparr>p_root = [], p_tail = [''t'']\<rparr> True
             = (Inr (), ex_fs\<lparr>dirs := {''.'', ''t''}\<rparr>)"
    using mkdir_creates[of "\<lparr>p_root = [], p_tail = [''t'']\<rparr>" ex_fs]
    by (simp add: ex_anc ex_str_dot ex_str_t ex_fs_def)
  have w: "open_wb (ex_fs\<lparr>dirs := {''.'', ''t''}\<rparr>) ''t/a.png'' = Inr (ex_fs\<lparr>dirs := {''.'', ''t''}, files := [''t/a.ctex'' \<mapsto> ex_data, ''t/a.png'' \<mapsto> []]\<rparr>)"
    by (simp add: open_wb_def ex_fs_def)
  have f: "f_write (ex_fs\<lparr>dirs := {''.'', ''t''}, files := [''t/a.ctex'' \<mapsto> ex_data, ''t/a.png'' \<mapsto> []]\<rparr>) ''t/a.png'' [0x89,0x50,0x4E,0x47]
     = Inr (ex_fs\<lparr>dirs := {''.'', ''t''}, files := [''t/a.ctex'' \<mapsto> ex_data, ''t/a.png'' \<mapsto> [0x89,0x50,0x4E,0x47]]\<rparr>)"
    by (simp add: f_write_def ex_fs_def)
  show ?thesis
    by (simp add: convert_ctex_to_image_def body_reads[OF ex_open ex_reads] ex_len ex_payload ex_tag ex_ext ex_name ex_path ex_str4 ex_parent ex_str_out m w f Let_def ex_fs_after_def)
qed

subsection \<open>What a result of the try block tells\<close>

lemma body_success:
  assumes "convert_try_body fs p od = (Inr (True, out, msg), fs')"
  shows "\<exists>d fs1 fs2. open_rb fs p = Inr \<lparr>f_data = d, f_pos = 0\<rparr> \<and> 56 < length d
     \<and> out = path_str (output_path_of p od (format_ext (le_value (take 4 (drop 36 d)))))
     \<and> msg = ''Format: '' @ format_name (le_value (take 4 (drop 36 d))) @ '', Size: ''
              @ py_str (length d - 56) @ '' bytes''
     \<and> mkdir fs (path_parent (output_path_of p od (format_ext (le_value (take 4 (drop 36 d))))))
           True = (Inr (), fs1)
     \<and> open_wb fs1 out = Inr fs2
     \<and> f_write fs2 out (drop 56 d) = Inr fs'"
proof -
  from assms obtain f0 where o: "open_rb fs p = Inr f0"
    by (auto simp: convert_try_body_def step_eq_Inr)
  from open_rb_Inr[OF o] have f0: "f0 = \<lparr>f_data = f_data f0, f_pos = 0\<rparr>"
    by (cases f0) simp
  with o have o': "open_rb fs p = Inr \<lparr>f_data = f_data f0, f_pos = 0\<rparr>" by simp
  from assms o' show ?thesis
    apply (simp add: convert_try_body_def)
    apply (clarsimp simp: f_seek_def f_tell_def f_read_def struct_unpack_I_def Let_def step_eq_Inr
        split: option.splits if_splits prod.splits)
    done
qed

lemma body_failure:
  assumes "convert_try_body fs p od = (Inr (False, out, msg), fs')"
  shows "out = [] \<and> msg \<noteq> [] \<and> fs' = fs"
  using assms
  by (auto simp: convert_try_body_def Let_def step_eq_Inr split: if_splits prod.splits)

lemma open_rb_raise:
  "open_rb fs p = Inl e \<Longrightarrow> \<forall>op x. fault fs op = Some x \<longrightarrow> is_Exception x \<Longrightarrow> is_Exception e"
  by (auto simp: open_rb_def split: option.splits if_splits)

lemma f_seek_raise:
  "f_seek fs f off wh = Inl e \<Longrightarrow> \<forall>op x. fault fs op = Some x \<longrightarrow> is_Exception x \<Longrightarrow> is_Exception e"
  by (auto simp: f_seek_def split: option.splits if_splits)

lemma f_tell_raise:
  "f_tell fs f = Inl e \<Longrightarrow> \<forall>op x. fault fs op = Some x \<longrightarrow> is_Exception x \<Longrightarrow> is_Exception e"
  by (auto simp: f_tell_def split: option.splits)

lemma f_read_raise:
  "f_read fs f n = Inl e \<Longrightarrow> \<forall>op x. fault fs op = Some x \<longrightarrow> is_Exception x \<Longrightarrow> is_Exception e"
  by (auto simp: f_read_def Let_def split: option.splits)

lemma struct_unpack_I_raise: "struct_unpack_I b = Inl e \<Longrightarrow> is_Exception e"
  by (auto simp: struct_unpack_I_def split: if_splits)

lemma open_wb_raise:
  "open_wb fs p = Inl e \<Longrightarrow> \<forall>op x. fault fs op = Some x \<longrightarrow> is_Exception x \<Longrightarrow> is_Exception e"
  by (auto simp: open_wb_def split: option.splits if_splits)

lemma f_write_raise:
  "f_write fs p b = Inl e \<Longrightarrow> \<forall>op x. fault fs op = Some x \<longrightarrow> is_Exception x \<Longrightarrow> is_Exception e"
  by (auto simp: f_write_def split: option.splits)

lemma open_wb_Inr:
  "open_wb fs p = Inr fs2 \<Longrightarrow>
     fs2 = fs\<lparr>files := (files fs)(resolve fs p \<mapsto> [])\<rparr> \<and> resolve fs p \<notin> dirs fs
     \<and> fault fs (OpenWrite p) = None"
  by (auto simp: open_wb_def split: option.splits if_splits)

lemma f_write_Inr:
  "f_write fs p b = Inr fs3 \<Longrightarrow>
     fs3 = fs\<lparr>files := (files fs)(resolve fs p \<mapsto> b)\<rparr> \<and> fault fs (Write p) = None"
  by (auto simp: f_write_def split: option.splits)

lemma step_raiseE:
  assumes "step m s k = (Inl e, s')"
  obtains "m = Inl e" "s' = s" | x where "m = Inr x" "k x = (Inl e, s')"
  using assms by (cases m) auto

lemma fault_open_wb: "open_wb fs p = Inr fs2 \<Longrightarrow> fault fs2 = fault fs"
  by (auto dest: open_wb_Inr)

lemma open_wb_catchable:
  "open_wb fs p = Inr fs2 \<Longrightarrow> \<forall>op x. fault fs op = Some x \<longrightarrow> is_Exception x
     \<Longrightarrow> \<forall>op x. fault fs2 op = Some x \<longrightarrow> is_Exception x"
  by (simp add: fault_open_wb)

lemma body_raise_is_Exception:
  assumes c: "\<forall>op x. fault fs op = Some x \<longrightarrow> is_Exception x"
    and b: "convert_try_body fs p od = (Inl e, fs')"
  shows "is_Exception e"
  using b unfolding convert_try_body_def Let_def
proof (elim step_raiseE, goal_cases)
  case 1 then show ?case by (blast intro: open_rb_raise[OF _ c])
next
  case 2 then show ?case by (blast intro: f_seek_raise[OF _ c])
next
  case 3 then show ?case by (blast intro: f_tell_raise[OF _ c])
next
  case 4 then show ?case by (blast intro: f_seek_raise[OF _ c])
next
  case (5 f0 f1 file_size f2)
  show ?case
  proof (cases "file_size < 56")
    case True with 5 show ?thesis by simp
  next
    case False
    with 5 have "step (f_seek fs f2 36 0) fs (\<lambda>f3.
     step (f_read fs f3 (Some 4)) fs (\<lambda>(format_bytes, f4).
     if length format_bytes < 4
     then (Inr (False, [], ''Failed to read format information''), fs)
     else
     step (struct_unpack_I format_bytes) fs (\<lambda>format_type.
     step (f_seek fs f4 56 0) fs (\<lambda>f5.
     step (f_read fs f5 None) fs (\<lambda>(image_data, f6).
     if image_data = []
     then (Inr (False, [], ''No image data found after header''), fs)
     else
     (case mkdir fs (path_parent (output_path_of p od (format_ext format_type))) True of
        (made, fs1) \<Rightarrow>
     step made fs1 (\<lambda>_.
     step (open_wb fs1 (path_str (output_path_of p od (format_ext format_type)))) fs1 (\<lambda>fs2.
     step (f_write fs2 (path_str (output_path_of p od (format_ext format_type))) image_data) fs2 (\<lambda>fs3.
     (Inr (True, path_str (output_path_of p od (format_ext format_type)),
           ''Format: '' @ format_name format_type @ '', Size: '' @ py_str (length image_data)
             @ '' bytes''), fs3)))))))))) = (Inl e, fs')" by simp
    then show ?thesis
      by (auto elim!: step_raiseE split: if_splits prod.splits
          dest!: f_seek_raise[OF _ c] f_read_raise[OF _ c] struct_unpack_I_raise
            mkdir_raise[OF _ c] open_wb_raise[OF _ mkdir_catchable[OF _ c]]
            f_write_raise[OF _ open_wb_catchable[OF _ mkdir_catchable[OF _ c]]])
  qed
qed

lemma convert_Inr_cases:
  assumes "convert_ctex_to_image fs p od = (Inr r, fs')"
  shows "convert_try_body fs p od = (Inr r, fs')
     \<or> (\<exists>e. convert_try_body fs p od = (Inl e, fs') \<and> is_Exception e
            \<and> r = (False, [], ''Error processing file: '' @ exn_str e))"
  using assms
  by (auto simp: convert_ctex_to_image_def split: prod.splits sum.splits if_splits)

lemma convert_success:
  assumes "convert_ctex_to_image fs p od = (Inr (True, out, msg), fs')"
  shows "convert_try_body fs p od = (Inr (True, out, msg), fs')"
  using convert_Inr_cases[OF assms] by auto

subsection \<open>The payload is copied verbatim\<close>

text \<open>
  Claim C1. When the input file opens with contents \<open>d\<close> and the conversion succeeds, the
  file holds more than the 56 bytes of the header, and the file at the returned output
  path holds exactly \<open>drop 56 d\<close>, the bytes of the input from offset 56 to the end: the
  same bytes in the same number, \<open>length d - 56\<close>, and no header.
\<close>

theorem payload_copied_verbatim:
  assumes "open_rb fs ctex_path = Inr \<lparr>f_data = d, f_pos = 0\<rparr>"
    and "convert_ctex_to_image fs ctex_path output_dir = (Inr (True, out, msg), fs')"
  shows "56 \<le> length d \<and> files fs' (resolve fs' out) = Some (drop 56 d)
     \<and> length (drop 56 d) = length d - 56"
proof -
  from body_success[OF convert_success[OF assms(2)]] assms(1)
  obtain fs2 where "56 < length d" and w: "f_write fs2 out (drop 56 d) = Inr fs'"
    by auto
  from f_write_Inr[OF w] have "files fs' (resolve fs' out) = Some (drop 56 d)"
    by simp
  with \<open>56 < length d\<close> show ?thesis by simp
qed

text \<open>The example: the output file holds the four bytes of the payload.\<close>

theorem payload_copied_verbatim_witness:
  "open_rb ex_fs ''t/a.ctex'' = Inr \<lparr>f_data = ex_data, f_pos = 0\<rparr>
   \<and> convert_ctex_to_image ex_fs ''t/a.ctex'' None
       = (Inr (True, ''t/a.png'', ''Format: PNG, Size: 4 bytes''), ex_fs_after)
   \<and> files ex_fs_after (resolve ex_fs_after ''t/a.png'') = Some (drop 56 ex_data)
   \<and> drop 56 ex_data = [0x89, 0x50, 0x4E, 0x47]"
  using payload_copied_verbatim[OF ex_open ex_run] ex_open ex_run ex_payload
  by simp

subsection \<open>A header without payload\<close>

text \<open>
  Claim C5. When the input file opens, holds exactly 56 bytes and every read succeeds,
  \<open>convert_ctex_to_image\<close> returns the failure tuple with the message
  \<^verbatim>\<open>No image data found after header\<close> (the text of the claim up to the case of its first
  letter) and returns the file system as it was: the check of the payload comes before
  any directory is made or any file is written.
\<close>

theorem header_only_fails_without_write:
  assumes "open_rb fs ctex_path = Inr \<lparr>f_data = d, f_pos = 0\<rparr>"
    and "reads_succeed fs" and "length d = 56"
  shows "convert_ctex_to_image fs ctex_path output_dir =
           (Inr (False, [], ''No image data found after header''), fs)
     \<and> lower ''No image data found after header'' = ''no image data found after header''"
proof -
  have "lower ''No image data found after header'' = ''no image data found after header''"
    by code_simp
  with body_reads[OF assms(1,2), of output_dir] assms(3) show ?thesis
    by (simp add: convert_ctex_to_image_def)
qed

text \<open>A file of exactly 56 bytes.\<close>

theorem header_only_fails_without_write_witness:
  "open_rb ex_fs_header_only ''h.ctex'' = Inr \<lparr>f_data = take 56 ex_data, f_pos = 0\<rparr>
   \<and> reads_succeed ex_fs_header_only \<and> length (take 56 ex_data) = 56
   \<and> convert_ctex_to_image ex_fs_header_only ''h.ctex'' None
       = (Inr (False, [], ''No image data found after header''), ex_fs_header_only)"
proof -
  have o: "open_rb ex_fs_header_only ''h.ctex'' = Inr \<lparr>f_data = take 56 ex_data, f_pos = 0\<rparr>"
    by (simp add: open_rb_def ex_fs_header_only_def)
  have r: "reads_succeed ex_fs_header_only"
    by (simp add: reads_succeed_def read_ops_def ex_fs_header_only_def)
  have l: "length (take 56 ex_data) = 56"
    by (simp add: ex_len)
  from header_only_fails_without_write[OF o r l, of None] o r l show ?thesis
    by simp
qed

subsection \<open>The read of the format tag cannot come up short\<close>

text \<open>
  Claim C9. When the input file holds at least 56 bytes, a read of 4 bytes after a seek to
  offset 36 yields exactly 4 bytes, and no result of \<open>convert_ctex_to_image\<close> carries the
  message \<^verbatim>\<open>Failed to read format information\<close>.
\<close>

theorem failed_read_unreachable:
  assumes "files fs (resolve fs ctex_path) = Some d" and "56 \<le> length d"
  shows "(\<forall>k f3 b f4. f_seek fs \<lparr>f_data = d, f_pos = k\<rparr> 36 0 = Inr f3
            \<longrightarrow> f_read fs f3 (Some 4) = Inr (b, f4) \<longrightarrow> length b = 4)
     \<and> (\<forall>ok out msg fs'. convert_ctex_to_image fs ctex_path output_dir = (Inr (ok, out, msg), fs')
            \<longrightarrow> msg \<noteq> ''Failed to read format information'')"
proof (intro conjI allI impI)
  fix k f3 b f4
  assume "f_seek fs \<lparr>f_data = d, f_pos = k\<rparr> 36 0 = Inr f3" "f_read fs f3 (Some 4) = Inr (b, f4)"
  with assms(2) show "length b = 4"
    by (auto simp: f_seek_def f_read_def Let_def split: option.splits)
next
  fix ok out msg fs'
  assume c: "convert_ctex_to_image fs ctex_path output_dir = (Inr (ok, out, msg), fs')"
  from convert_Inr_cases[OF c] show "msg \<noteq> ''Failed to read format information''"
  proof
    assume b: "convert_try_body fs ctex_path output_dir = (Inr (ok, out, msg), fs')"
    then obtain f0 where o: "open_rb fs ctex_path = Inr f0"
      by (auto simp: convert_try_body_def step_eq_Inr)
    from open_rb_Inr[OF o] assms(1) have "f0 = \<lparr>f_data = d, f_pos = 0\<rparr>"
      by (cases f0) simp
    with o b assms(2) show ?thesis
      by (auto simp: convert_try_body_def f_seek_def f_tell_def f_read_def Let_def step_eq_Inr
          split: option.splits if_splits prod.splits)
  next
    assume "\<exists>e. convert_try_body fs ctex_path output_dir = (Inl e, fs') \<and> is_Exception e
            \<and> (ok, out, msg) = (False, [], ''Error processing file: '' @ exn_str e)"
    then show ?thesis by auto
  qed
qed

text \<open>The example: the read at offset 36 yields the four bytes of the tag.\<close>

theorem failed_read_unreachable_witness:
  "files ex_fs (resolve ex_fs ''t/a.ctex'') = Some ex_data \<and> 56 \<le> length ex_data
   \<and> f_seek ex_fs \<lparr>f_data = ex_data, f_pos = 0\<rparr> 36 0 = Inr \<lparr>f_data = ex_data, f_pos = 36\<rparr>
   \<and> f_read ex_fs \<lparr>f_data = ex_data, f_pos = 36\<rparr> (Some 4)
       = Inr ([1, 0, 0, 0], \<lparr>f_data = ex_data, f_pos = 40\<rparr>)
   \<and> length [1, 0, 0, 0 :: byte] = 4
   \<and> convert_ctex_to_image ex_fs ''t/a.ctex'' None
       = (Inr (True, ''t/a.png'', ''Format: PNG, Size: 4 bytes''), ex_fs_after)
   \<and> ''Format: PNG, Size: 4 bytes'' \<noteq> ''Failed to read format information''"
proof -
  have f: "files ex_fs (resolve ex_fs ''t/a.ctex'') = Some ex_data"
    by (simp add: ex_fs_def)
  have l: "56 \<le> length ex_data"
    by (simp add: ex_len)
  have s: "f_seek ex_fs \<lparr>f_data = ex_data, f_pos = 0\<rparr> 36 0 = Inr \<lparr>f_data = ex_data, f_pos = 36\<rparr>"
    by (simp add: f_seek_def ex_fs_def)
  have t: "take 4 (drop 36 ex_data) = [1, 0, 0, 0]"
    by (simp add: ex_data_def)
  have r: "f_read ex_fs \<lparr>f_data = ex_data, f_pos = 36\<rparr> (Some 4)
       = Inr ([1, 0, 0, 0], \<lparr>f_data = ex_data, f_pos = 40\<rparr>)"
    by (simp add: f_read_def ex_fs_def t ex_len)
  note u = failed_read_unreachable[OF f l, of None]
  from u[THEN conjunct1, rule_format, OF s r] u[THEN conjunct2, rule_format, OF ex_run]
    f l s r ex_run
  show ?thesis by simp
qed

subsection \<open>No exception leaves the function\<close>

text \<open>
  Claim C4. When every exception with which the operating system refuses an operation
  derives from \<^verbatim>\<open>Exception\<close> (as every I/O error does), \<open>convert_ctex_to_image\<close> returns a tuple
  for every path and every output directory, and whenever the body of its \<^verbatim>\<open>try\<close> block
  raises an exception \<open>e\<close>, whichever statement raised it, the function returns the
  failure tuple with the message \<^verbatim>\<open>Error processing file: \<close> followed by the text of \<open>e\<close>.
\<close>

theorem never_raises:
  assumes "\<forall>op e. fault fs op = Some e \<longrightarrow> is_Exception e"
  shows "(\<exists>ok out msg fs'. convert_ctex_to_image fs ctex_path output_dir = (Inr (ok, out, msg), fs'))
     \<and> (\<forall>e fs'. convert_try_body fs ctex_path output_dir = (Inl e, fs')
          \<longrightarrow> convert_ctex_to_image fs ctex_path output_dir
                = (Inr (False, [], ''Error processing file: '' @ exn_str e), fs'))"
proof -
  obtain r fs' where b: "convert_try_body fs ctex_path output_dir = (r, fs')"
    by (cases "convert_try_body fs ctex_path output_dir") auto
  show ?thesis
  proof (cases r)
    case (Inl e)
    with b body_raise_is_Exception[OF assms] have "is_Exception e" by blast
    with b Inl show ?thesis by (auto simp: convert_ctex_to_image_def)
  next
    case (Inr t)
    with b show ?thesis by (cases t) (auto simp: convert_ctex_to_image_def)
  qed
qed

text \<open>The input file may not be read: the error comes back as a failure tuple.\<close>

theorem never_raises_witness:
  "convert_try_body ex_fs_denied ''t/a.ctex'' None
     = (Inl (OSError ''[Errno 13] Permission denied''), ex_fs_denied)
   \<and> convert_ctex_to_image ex_fs_denied ''t/a.ctex'' None
     = (Inr (False, [], ''Error processing file: [Errno 13] Permission denied''), ex_fs_denied)"
proof -
  have c: "\<forall>op e. fault ex_fs_denied op = Some e \<longrightarrow> is_Exception e"
    by (simp add: ex_fs_denied_def)
  have b: "convert_try_body ex_fs_denied ''t/a.ctex'' None
       = (Inl (OSError ''[Errno 13] Permission denied''), ex_fs_denied)"
    by (simp add: convert_try_body_def open_rb_def ex_fs_denied_def)
  from never_raises[OF c, of "''t/a.ctex''" None, THEN conjunct2, rule_format, OF b] b
  show ?thesis by simp
qed

text \<open>The handler is \<^verbatim>\<open>except Exception\<close>: an exception that derives from
  \<^verbatim>\<open>BaseException\<close> only, such as the interrupt of the user, is not a failure of the
  conversion and passes through.\<close>

lemma keyboard_interrupt_propagates:
  "convert_ctex_to_image (ex_fs\<lparr>fault := (\<lambda>op. Some (KeyboardInterrupt []))\<rparr>) ''t/a.ctex'' None
     = (Inl (KeyboardInterrupt []), ex_fs\<lparr>fault := (\<lambda>op. Some (KeyboardInterrupt []))\<rparr>)"
  by (simp add: convert_ctex_to_image_def convert_try_body_def open_rb_def)

subsection \<open>The format tag and the extension\<close>

lemma digit_val_digit_char: "d < 10 \<Longrightarrow> digit_val (digit_char d) = d"
  by (simp add: digit_val_def digit_char_def)

lemma parse_decimal_snoc: "parse_decimal (s @ [c]) = 10 * parse_decimal s + digit_val c"
  by (simp add: parse_decimal_def)

lemma parse_py_str: "parse_decimal (py_str n) = n"
proof (induction n rule: py_str.induct)
  case (1 n)
  show ?case
  proof (cases "n < 10")
    case True
    then show ?thesis
      by (simp add: py_str.simps[of n] parse_decimal_def digit_val_digit_char)
  next
    case False
    with 1 have "parse_decimal (py_str (n div 10)) = n div 10"
      by simp
    with False show ?thesis
      by (simp add: py_str.simps[of n] parse_decimal_snoc digit_val_digit_char)
  qed
qed

lemma py_str_inj: "py_str a = py_str b \<Longrightarrow> a = b"
  by (metis parse_py_str)

lemma format_ext_known:
  "format_ext 0 = ''.unknown''" "format_ext 1 = ''.png''" "format_ext 2 = ''.webp''"
  "format_ext 3 = ''.basis''"
  by (simp_all add: format_ext_def format_map_def dict_get_def)

lemma format_ext_other: "3 < t \<Longrightarrow> format_ext t = ''.format'' @ py_str t"
  by (simp add: format_ext_def format_map_def dict_get_def)

lemma le_value_4:
  "le_value [a, b, c, d] = unat a + 256 * unat b + 65536 * unat c + 16777216 * unat d"
  by simp

lemma le_value_4_bound: "le_value [a, b, c, d] < 2 ^ 32"
proof -
  have "unat a < 256" "unat b < 256" "unat c < 256" "unat d < 256"
    using unsigned_less[of a, where 'a = nat] unsigned_less[of b, where 'a = nat]
      unsigned_less[of c, where 'a = nat] unsigned_less[of d, where 'a = nat] by simp_all
  then show ?thesis by simp
qed

lemma take4_drop36:
  "40 \<le> length d \<Longrightarrow> take 4 (drop 36 d) = [d ! 36, d ! 37, d ! 38, d ! 39]"
proof -
  assume l: "40 \<le> length d"
  have "take 4 (drop 36 d) = map (\<lambda>i. d ! (36 + i)) [0..<4]"
    using l by (intro nth_equalityI) auto
  also have "[0..<4] = [0, 1, 2, 3::nat]" by (simp add: upt_rec)
  finally show ?thesis by simp
qed

lemma format_ext_7: "format_ext 7 = ''.format7''"
proof -
  have "py_str 7 = ''7''" by code_simp
  then show ?thesis by (simp add: format_ext_other)
qed

text \<open>
  Claim C3. On a successful conversion of a file with contents \<open>d\<close>, the extension of the
  output path is \<open>format_ext\<close> of the tag, and the tag is the unsigned 32-bit little-endian
  value of the bytes at offsets 36 to 39 (byte 36 is the least significant; the value is
  below \<open>2 ^ 32\<close>). \<open>format_ext\<close> follows the fixed table on the tags 0, 1, 2 and 3; on every
  other tag it is \<^verbatim>\<open>.format\<close> followed by the decimal digits of the tag, from which the tag
  can be read back, and it is none of the four extensions of the table.
\<close>

theorem format_tag_selects_extension:
  assumes "open_rb fs ctex_path = Inr \<lparr>f_data = d, f_pos = 0\<rparr>"
    and "convert_ctex_to_image fs ctex_path output_dir = (Inr (True, out, msg), fs')"
  shows "(\<exists>tag. tag = unat (d ! 36) + 256 * unat (d ! 37) + 65536 * unat (d ! 38)
                       + 16777216 * unat (d ! 39)
            \<and> tag < 2 ^ 32
            \<and> out = path_str (output_path_of ctex_path output_dir (format_ext tag)))
     \<and> format_ext 0 = ''.unknown'' \<and> format_ext 1 = ''.png'' \<and> format_ext 2 = ''.webp''
     \<and> format_ext 3 = ''.basis''
     \<and> (\<forall>t. t \<notin> {0, 1, 2, 3} \<longrightarrow>
            format_ext t = ''.format'' @ py_str t
          \<and> parse_decimal (drop 7 (format_ext t)) = t
          \<and> format_ext t \<notin> {''.unknown'', ''.png'', ''.webp'', ''.basis''})"
proof -
  from body_success[OF convert_success[OF assms(2)]] assms(1)
  have l: "56 < length d"
    and o: "out = path_str (output_path_of ctex_path output_dir
                  (format_ext (le_value (take 4 (drop 36 d)))))"
    by auto
  from l have t: "take 4 (drop 36 d) = [d ! 36, d ! 37, d ! 38, d ! 39]"
    by (simp add: take4_drop36)
  have a: "\<exists>tag. tag = unat (d ! 36) + 256 * unat (d ! 37) + 65536 * unat (d ! 38)
                       + 16777216 * unat (d ! 39)
            \<and> tag < 2 ^ 32
            \<and> out = path_str (output_path_of ctex_path output_dir (format_ext tag))"
    using o le_value_4_bound[of "d ! 36" "d ! 37" "d ! 38" "d ! 39"]
    unfolding t le_value_4 by simp
  have b: "format_ext t = ''.format'' @ py_str t
          \<and> parse_decimal (drop 7 (format_ext t)) = t
          \<and> format_ext t \<notin> {''.unknown'', ''.png'', ''.webp'', ''.basis''}"
    if "t \<notin> {0, 1, 2, 3}" for t
  proof -
    from that have "3 < t" by auto
    then have "format_ext t = ''.format'' @ py_str t" by (rule format_ext_other)
    then show ?thesis by (simp add: parse_py_str)
  qed
  from a b format_ext_known show ?thesis by blast
qed

text \<open>The example, whose tag is 1, and the extension of the tag 7.\<close>

theorem format_tag_selects_extension_witness:
  "open_rb ex_fs ''t/a.ctex'' = Inr \<lparr>f_data = ex_data, f_pos = 0\<rparr>
   \<and> convert_ctex_to_image ex_fs ''t/a.ctex'' None
       = (Inr (True, ''t/a.png'', ''Format: PNG, Size: 4 bytes''), ex_fs_after)
   \<and> unat (ex_data ! 36) + 256 * unat (ex_data ! 37) + 65536 * unat (ex_data ! 38)
       + 16777216 * unat (ex_data ! 39) = 1
   \<and> ''t/a.png'' = path_str (output_path_of ''t/a.ctex'' None (format_ext 1))
   \<and> format_ext 7 = ''.format7'' \<and> parse_decimal (drop 7 (format_ext 7)) = 7"
proof -
  have v: "unat (ex_data ! 36) + 256 * unat (ex_data ! 37) + 65536 * unat (ex_data ! 38)
       + 16777216 * unat (ex_data ! 39) = 1"
    by (simp add: ex_data_def)
  note u = format_tag_selects_extension[OF ex_open ex_run]
  have "(7::nat) \<notin> {0, 1, 2, 3}" by simp
  with u have "parse_decimal (drop 7 (format_ext 7)) = 7" by blast
  moreover from u v have "''t/a.png'' = path_str (output_path_of ''t/a.ctex'' None (format_ext 1))"
    by simp
  ultimately show ?thesis
    using ex_open ex_run v format_ext_7 by simp
qed

subsection \<open>Discovery of the container files\<close>

lemma length_ctex: "length ''.ctex'' = 5"
  by simp

lemma lower_ctex_length: "lower ext = ''.ctex'' \<Longrightarrow> length ext = 5"
proof -
  assume "lower ext = ''.ctex''"
  then have "length (lower ext) = length ''.ctex''" by (rule arg_cong)
  then show ?thesis by (simp add: lower_def)
qed

lemma matches_ctex_iff:
  "matches_ctex name \<longleftrightarrow> (\<exists>stem ext. name = stem @ ext \<and> lower ext = ''.ctex'')"
proof
  assume "matches_ctex name"
  then have "name = take (length name - 5) name @ drop (length name - 5) name
      \<and> lower (drop (length name - 5) name) = ''.ctex''"
    by (simp add: matches_ctex_def)
  then show "\<exists>stem ext. name = stem @ ext \<and> lower ext = ''.ctex''" by blast
next
  assume "\<exists>stem ext. name = stem @ ext \<and> lower ext = ''.ctex''"
  then obtain stem ext where n: "name = stem @ ext" and l: "lower ext = ''.ctex''" by blast
  from lower_ctex_length[OF l] n l show "matches_ctex name"
    by (simp add: matches_ctex_def)
qed

lemma endswith_lower_ctex: "endswith (lower f) ''.ctex'' \<longleftrightarrow> matches_ctex f"
proof -
  have e: "endswith (lower f) ''.ctex''
      \<longleftrightarrow> 5 \<le> length f \<and> lower (drop (length f - 5) f) = ''.ctex''"
    unfolding endswith_def length_ctex by (simp only: lower_def drop_map length_map)
  have "5 \<le> length f" if "lower (drop (length f - 5) f) = ''.ctex''"
    using lower_ctex_length[OF that] by simp
  with e show ?thesis by (auto simp only: matches_ctex_def)
qed

lemma files_loop_eq:
  "files_loop root fnames acc = acc @ map (os_path_join root) (filter matches_ctex fnames)"
  by (induction fnames arbitrary: acc) (simp_all add: endswith_lower_ctex)

lemma walk_loop_eq:
  "walk_loop ws acc
     = acc @ concat (map (\<lambda>(root, dnames, fnames). map (os_path_join root) (filter matches_ctex fnames)) ws)"
  by (induction ws acc rule: walk_loop.induct) (simp_all add: files_loop_eq)

lemma os_walk_tree_file:
  "(\<exists>dnames fnames. (r, dnames, fnames) \<in> set (os_walk top_dir t) \<and> f \<in> set fnames)
     \<longleftrightarrow> tree_file top_dir t r f"
proof
  show "tree_file top_dir t r f"
    if "\<exists>dnames fnames. (r, dnames, fnames) \<in> set (os_walk top_dir t) \<and> f \<in> set fnames"
    using that
  proof (induction top_dir t rule: os_walk.induct)
    case (1 top_dir fnames subs)
    then obtain dn fn where m: "(r, dn, fn) \<in> set (os_walk top_dir (Dir fnames subs))"
      and f: "f \<in> set fn" by blast
    from m consider "r = top_dir" "fn = fnames"
      | n d where "(n, d) \<in> set subs" "(r, dn, fn) \<in> set (os_walk (os_path_join top_dir n) d)"
      by auto
    then show ?case
    proof cases
      case 1 with f show ?thesis by (auto intro: tree_file.here)
    next
      case 2
      with "1.IH"[of "(n, d)" n d] f show ?thesis by (auto intro: tree_file.below)
    qed
  qed
next
  show "\<exists>dnames fnames. (r, dnames, fnames) \<in> set (os_walk top_dir t) \<and> f \<in> set fnames"
    if "tree_file top_dir t r f"
    using that
  proof (induction rule: tree_file.induct)
    case (here f fnames top_dir subs)
    then show ?case by auto
  next
    case (below n d subs top_dir r f fnames)
    then show ?case by force
  qed
qed

text \<open>
  Claim C7. The paths that \<open>find_ctex_files\<close> returns are exactly the paths
  \<^verbatim>\<open>os.path.join(r, f)\<close> of the files \<open>f\<close> of the tree, in a directory \<open>r\<close> at any depth, whose
  name ends with \<^verbatim>\<open>.ctex\<close> in any case; a tree without files yields the empty list; and in
  the tree of the example \<^verbatim>\<open>a.CTEX\<close> and, one directory down, \<^verbatim>\<open>c.Ctex\<close> are found, while
  \<^verbatim>\<open>b.png\<close> and \<^verbatim>\<open>ctex\<close> are not.
\<close>

theorem find_ctex_files_exact:
  "set (find_ctex_files directory tree)
     = {os_path_join r f | r f. tree_file directory tree r f \<and> matches_ctex f}
   \<and> find_ctex_files directory (Dir [] []) = []
   \<and> find_ctex_files ''.'' (Dir [''a.CTEX'', ''b.png''] [(''sub'', Dir [''c.Ctex'', ''ctex''] [])])
       = [''./a.CTEX'', ''./sub/c.Ctex'']"
proof (intro conjI)
  show "set (find_ctex_files directory tree)
     = {os_path_join r f | r f. tree_file directory tree r f \<and> matches_ctex f}"
    unfolding find_ctex_files_def walk_loop_eq os_walk_tree_file[symmetric]
    by auto
  show "find_ctex_files directory (Dir [] []) = []"
    by (simp add: find_ctex_files_def)
  show "find_ctex_files ''.'' (Dir [''a.CTEX'', ''b.png''] [(''sub'', Dir [''c.Ctex'', ''ctex''] [])])
       = [''./a.CTEX'', ''./sub/c.Ctex'']"
    by code_simp
qed

subsection \<open>Running the conversion again\<close>

lemma body_success_reads:
  assumes "convert_try_body fs p od = (Inr (True, out, msg), fs')"
  shows "reads_succeed fs"
  using assms
  by (auto simp: convert_try_body_def reads_succeed_def read_ops_def f_seek_def f_tell_def
      f_read_def Let_def step_eq_Inr split: option.splits if_splits)

lemma open_rb_eq:
  "open_rb fs p = Inr \<lparr>f_data = d, f_pos = 0\<rparr>
     \<longleftrightarrow> fault fs (OpenRead p) = None \<and> resolve fs p \<notin> dirs fs \<and> files fs (resolve fs p) = Some d"
  by (auto simp: open_rb_def split: option.splits)

text \<open>
  Claim C8. When a conversion succeeds and has left its input file as it was (the output
  path does not denote the input file itself), a second conversion of the same input with
  the same arguments returns the same tuple and leaves the file system exactly as the
  first conversion left it: the output file is written again with the same bytes, and
  nothing else changes.
\<close>

theorem second_run_changes_nothing:
  assumes run: "convert_ctex_to_image fs ctex_path output_dir = (Inr (True, out, msg), fs1)"
    and unchanged: "files fs1 (resolve fs1 ctex_path) = files fs (resolve fs ctex_path)"
  shows "convert_ctex_to_image fs1 ctex_path output_dir = (Inr (True, out, msg), fs1)"
proof -
  let ?b = "convert_try_body fs ctex_path output_dir"
  have b: "?b = (Inr (True, out, msg), fs1)"
    using run by (rule convert_success)
  from body_success[OF b] obtain d fsm fsw where
    o: "open_rb fs ctex_path = Inr \<lparr>f_data = d, f_pos = 0\<rparr>" and l: "56 < length d"
    and out: "out = path_str (output_path_of ctex_path output_dir
                (format_ext (le_value (take 4 (drop 36 d)))))"
    and msg: "msg = ''Format: '' @ format_name (le_value (take 4 (drop 36 d))) @ '', Size: ''
              @ py_str (length d - 56) @ '' bytes''"
    and m: "mkdir fs (path_parent (output_path_of ctex_path output_dir
                (format_ext (le_value (take 4 (drop 36 d)))))) True = (Inr (), fsm)"
    and w: "open_wb fsm out = Inr fsw"
    and f: "f_write fsw out (drop 56 d) = Inr fs1"
    by blast
  let ?D = "path_parent (output_path_of ctex_path output_dir
                (format_ext (le_value (take 4 (drop 36 d)))))"
  let ?o = "resolve fs out"
  from mkdir_frame[OF m] obtain X where
    fsm: "fsm = fs\<lparr>dirs := X\<rparr>" and X: "dirs fs \<subseteq> X"
    and nofile: "\<forall>l \<in> X - dirs fs. files fs l = None"
    by blast
  from open_wb_Inr[OF w] fsm have
    fsw: "fsw = fs\<lparr>dirs := X, files := (files fs)(?o \<mapsto> [])\<rparr>"
    and odir: "?o \<notin> X"
    and fo: "fault fs (OpenWrite out) = None"
    by auto
  from f_write_Inr[OF f] fsw have
    fs1: "fs1 = fs\<lparr>dirs := X, files := (files fs)(?o \<mapsto> drop 56 d)\<rparr>"
    and fw: "fault fs (Write out) = None"
    by auto
  from o have o3: "fault fs (OpenRead ctex_path) = None" "resolve fs ctex_path \<notin> dirs fs"
    "files fs (resolve fs ctex_path) = Some d"
    by (simp_all add: open_rb_eq)
  have pX: "resolve fs ctex_path \<notin> X"
    using nofile o3(2,3) by auto
  have o1: "open_rb fs1 ctex_path = Inr \<lparr>f_data = d, f_pos = 0\<rparr>"
    unfolding open_rb_eq using o3 pX unchanged by (simp add: fs1)
  have r1: "reads_succeed fs1"
    using body_success_reads[OF b] by (simp add: reads_succeed_def fs1)
  have m1: "mkdir fs1 ?D True = (Inr (), fs1)"
    using m by (rule mkdir_again) (simp_all add: fs1 fsm)
  have w1: "open_wb fs1 out = Inr (fs1\<lparr>files := (files fs1)(resolve fs1 out \<mapsto> [])\<rparr>)"
    using odir fo by (simp add: open_wb_def fs1)
  have f1: "f_write (fs1\<lparr>files := (files fs1)(resolve fs1 out \<mapsto> [])\<rparr>) out (drop 56 d) = Inr fs1"
    using fw by (simp add: f_write_def fs1)
  from l have ne: "drop 56 d \<noteq> []" by simp
  have "convert_try_body fs1 ctex_path output_dir = (Inr (True, out, msg), fs1)"
    using l ne by (simp add: body_reads[OF o1 r1] Let_def out[symmetric] msg m1 w1 f1)
  then show ?thesis
    by (simp add: convert_ctex_to_image_def)
qed

text \<open>The example, converted a second time.\<close>

theorem second_run_changes_nothing_witness:
  "convert_ctex_to_image ex_fs ''t/a.ctex'' None
     = (Inr (True, ''t/a.png'', ''Format: PNG, Size: 4 bytes''), ex_fs_after)
   \<and> files ex_fs_after (resolve ex_fs_after ''t/a.ctex'') = files ex_fs (resolve ex_fs ''t/a.ctex'')
   \<and> convert_ctex_to_image ex_fs_after ''t/a.ctex'' None
     = (Inr (True, ''t/a.png'', ''Format: PNG, Size: 4 bytes''), ex_fs_after)"
proof -
  have u: "files ex_fs_after (resolve ex_fs_after ''t/a.ctex'') = files ex_fs (resolve ex_fs ''t/a.ctex'')"
    by (simp add: ex_fs_after_def ex_fs_def)
  from second_run_changes_nothing[OF ex_run u] ex_run u show ?thesis
    by simp
qed

subsection \<open>The output path\<close>

lemma split_sep_nonempty: "split_sep s \<noteq> []"
  by (induction s) (auto split: list.splits)

lemma split_sep_no_sep: "CHR ''/'' \<notin> set s \<Longrightarrow> split_sep s = [s]"
  by (induction s) auto

lemma split_sep_parts: "x \<in> set (split_sep s) \<Longrightarrow> CHR ''/'' \<notin> set x"
  by (induction s arbitrary: x) (auto split: if_splits list.splits)

lemma Path_simple:
  assumes "CHR ''/'' \<notin> set s" and "s \<noteq> []" and "s \<noteq> ''.''"
  shows "Path s = \<lparr>p_root = [], p_tail = [s]\<rparr>"
proof -
  from assms(1,2) have "take 1 s \<noteq> ''/''"
    by (cases s) auto
  then have "splitroot s = ([], s)"
    by (simp add: splitroot_def)
  with assms show ?thesis
    by (simp add: Path_def split_sep_no_sep)
qed

lemma Path_tail_parts: "x \<in> set (p_tail (Path s)) \<Longrightarrow> CHR ''/'' \<notin> set x"
  by (auto simp: Path_def split: prod.splits dest: split_sep_parts)

lemma path_name_no_sep: "CHR ''/'' \<notin> set (path_name (Path s))"
proof (cases "p_tail (Path s) = []")
  case True
  then show ?thesis by (simp add: path_name_def)
next
  case False
  then have "last (p_tail (Path s)) \<in> set (p_tail (Path s))" by simp
  then have "CHR ''/'' \<notin> set (last (p_tail (Path s)))" by (rule Path_tail_parts)
  with False show ?thesis
    by (simp add: path_name_def)
qed

lemma path_stem_no_sep: "CHR ''/'' \<notin> set (path_stem (Path s))"
  using path_name_no_sep[of s]
  by (auto simp: path_stem_def Let_def dest: in_set_takeD)

lemma digit_char_not_sep: "d < 10 \<Longrightarrow> digit_char d \<noteq> CHR ''/''"
proof
  assume d: "d < 10" and "digit_char d = CHR ''/''"
  then have "(of_char (digit_char d) :: nat) = of_char CHR ''/''" by simp
  with d show False by (simp add: digit_char_def)
qed

lemma py_str_no_sep: "CHR ''/'' \<notin> set (py_str n)"
proof (induction n rule: py_str.induct)
  case (1 n)
  show ?case
  proof (cases "n < 10")
    case True
    then show ?thesis
      using digit_char_not_sep[of n] by (auto simp: py_str.simps[of n])
  next
    case False
    with 1 have "CHR ''/'' \<notin> set (py_str (n div 10))" by simp
    moreover have "digit_char (n mod 10) \<noteq> CHR ''/''" by (simp add: digit_char_not_sep)
    ultimately show ?thesis using False by (auto simp: py_str.simps[of n])
  qed
qed

lemma format_ext_cases:
  "format_ext t = ''.unknown'' \<or> format_ext t = ''.png'' \<or> format_ext t = ''.webp''
     \<or> format_ext t = ''.basis'' \<or> format_ext t = ''.format'' @ py_str t"
  by (simp add: format_ext_def format_map_def dict_get_def)

lemma format_ext_no_sep: "CHR ''/'' \<notin> set (format_ext t)"
  using format_ext_cases[of t] py_str_no_sep[of t] by auto

lemma format_ext_length: "2 \<le> length (format_ext t)"
  using format_ext_cases[of t] by auto

lemma segment_simple:
  "CHR ''/'' \<notin> set (path_stem (Path s) @ format_ext t)
     \<and> path_stem (Path s) @ format_ext t \<noteq> []
     \<and> path_stem (Path s) @ format_ext t \<noteq> ''.''"
proof -
  have "2 \<le> length (path_stem (Path s) @ format_ext t)"
    using format_ext_length[of t] by simp
  then have "path_stem (Path s) @ format_ext t \<noteq> [] \<and> path_stem (Path s) @ format_ext t \<noteq> ''.''"
    by (metis One_nat_def length_Cons list.size(3) not_numeral_le_zero numeral_le_one_iff
        semiring_norm(69))
  then show ?thesis
    by (simp add: path_stem_no_sep format_ext_no_sep)
qed

lemma truediv_segment:
  "truediv D (path_stem (Path s) @ format_ext t)
     = D\<lparr>p_tail := p_tail D @ [path_stem (Path s) @ format_ext t]\<rparr>"
  using segment_simple[of s t] by (simp add: truediv_def Path_simple Let_def)

lemma output_path_name:
  "path_name (output_path_of p od (format_ext t)) = path_stem (Path p) @ format_ext t"
  by (simp add: output_path_of_def Let_def truediv_segment path_name_def)

lemma output_path_parent:
  "path_parent (output_path_of p od (format_ext t))
     = (if truthy od then Path (the od) else path_parent (Path p))"
  by (simp add: output_path_of_def Let_def truediv_segment path_parent_def)

lemma stem_suffix: "path_stem P @ path_suffix P = path_name P"
  by (simp add: path_stem_def path_suffix_def Let_def)

lemma find_last_absent: "c \<notin> set xs \<Longrightarrow> find_last c xs i r = r"
  by (induction xs arbitrary: i r) auto

lemma find_last_at:
  "c \<notin> set zs \<Longrightarrow> find_last c (ys @ c # zs) i r = int (i + length ys)"
  by (induction ys arbitrary: i r) (auto simp: find_last_absent)

lemma stem_of_extension:
  assumes "path_name P = base @ ''.'' @ sfx" and "base \<noteq> []" and "sfx \<noteq> []"
    and "CHR ''.'' \<notin> set sfx"
  shows "path_stem P = base \<and> path_suffix P = ''.'' @ sfx"
proof -
  have "rfind (path_name P) CHR ''.'' = int (length base)"
    using assms(1,4) find_last_at[of "CHR ''.''" sfx base 0 "- 1"] by (simp add: rfind_def)
  with assms show ?thesis
    by (simp add: path_stem_def path_suffix_def Let_def)
qed

lemma ex_path_dir:
  "output_path_of ''t/a.ctex'' (Some ''o'') ''.png'' = \<lparr>p_root = [], p_tail = [''o'', ''a.png'']\<rparr>"
  by code_simp

lemma ex_anc_dir:
  "ancestors_or_self \<lparr>p_root = [], p_tail = [''o'']\<rparr>
     = [\<lparr>p_root = [], p_tail = []\<rparr>, \<lparr>p_root = [], p_tail = [''o'']\<rparr>]"
  by code_simp

lemma ex_run_dir:
  "convert_ctex_to_image ex_fs ''t/a.ctex'' (Some ''o'') =
     (Inr (True, ''o/a.png'', ''Format: PNG, Size: 4 bytes''), ex_fs_after_dir)"
proof -
  have p: "path_parent \<lparr>p_root = [], p_tail = [''o'', ''a.png'']\<rparr> = \<lparr>p_root = [], p_tail = [''o'']\<rparr>"
    by (simp add: path_parent_def)
  have s: "path_str \<lparr>p_root = [], p_tail = [''o'', ''a.png'']\<rparr> = ''o/a.png''"
    "path_str \<lparr>p_root = [], p_tail = [''o'']\<rparr> = ''o''"
    by (simp_all add: path_str_def)
  have m: "mkdir ex_fs \<lparr>p_root = [], p_tail = [''o'']\<rparr> True
             = (Inr (), ex_fs\<lparr>dirs := {''.'', ''o''}\<rparr>)"
    using mkdir_creates[of "\<lparr>p_root = [], p_tail = [''o'']\<rparr>" ex_fs]
    by (simp add: ex_anc_dir ex_str_dot s ex_fs_def)
  have w: "open_wb (ex_fs\<lparr>dirs := {''.'', ''o''}\<rparr>) ''o/a.png''
     = Inr (ex_fs\<lparr>dirs := {''.'', ''o''}, files := [''t/a.ctex'' \<mapsto> ex_data, ''o/a.png'' \<mapsto> []]\<rparr>)"
    by (simp add: open_wb_def ex_fs_def)
  have f: "f_write (ex_fs\<lparr>dirs := {''.'', ''o''},
                          files := [''t/a.ctex'' \<mapsto> ex_data, ''o/a.png'' \<mapsto> []]\<rparr>)
             ''o/a.png'' [0x89, 0x50, 0x4E, 0x47] = Inr ex_fs_after_dir"
    by (simp add: f_write_def ex_fs_def ex_fs_after_dir_def)
  show ?thesis
    by (simp add: convert_ctex_to_image_def body_reads[OF ex_open ex_reads] ex_len ex_payload
        ex_tag ex_ext ex_name ex_path_dir ex_str4 p s m w f Let_def)
qed

lemma split_sep_cons:
  "CHR ''/'' \<notin> set x \<Longrightarrow> split_sep (x @ CHR ''/'' # r) = x # split_sep r"
  by (induction x) (auto split: list.splits)

lemma join_sep_Cons: "join_sep (x # xs) = x @ (if xs = [] then [] else ''/'' @ join_sep xs)"
  by (cases xs) simp_all

lemma split_join:
  "segs \<noteq> [] \<Longrightarrow> \<forall>s \<in> set segs. CHR ''/'' \<notin> set s \<Longrightarrow> split_sep (join_sep segs) = segs"
proof (induction segs rule: join_sep.induct)
  case 1 then show ?case by simp
next
  case (2 x) then show ?case by (simp add: split_sep_no_sep)
next
  case (3 x y ys)
  then show ?case by (simp add: split_sep_cons)
qed

lemma join_sep_snoc:
  "join_sep (xs @ [x]) = (if xs = [] then x else join_sep xs @ ''/'' @ x)"
  by (induction xs rule: join_sep.induct) simp_all

lemma Path_spelled:
  assumes "spelling r comps"
  shows "Path (r @ join_sep comps) = \<lparr>p_root = r, p_tail = kept comps\<rparr>"
proof (cases comps)
  case Nil
  with assms show ?thesis by (auto simp: spelling_def Path_def splitroot_def kept_def)
next
  case (Cons x xs)
  with assms have x: "x \<noteq> []" "CHR ''/'' \<notin> set x"
    and r: "r = [] \<or> r = ''/'' \<or> r = ''//''"
    and c: "\<forall>c \<in> set comps. CHR ''/'' \<notin> set c"
    by (auto simp: spelling_def)
  from x have "hd x \<noteq> CHR ''/''" by (cases x) auto
  with x have t: "take 1 (join_sep comps) \<noteq> ''/''" "join_sep comps \<noteq> []"
    unfolding Cons join_sep_Cons by (cases x; simp)+
  from r t have sr: "splitroot (r @ join_sep comps) = (r, join_sep comps)"
    by (auto simp: splitroot_def)
  from c Cons have sj: "split_sep (join_sep comps) = comps"
    by (intro split_join) auto
  from sr sj show ?thesis by (simp add: Path_def kept_def)
qed

lemma path_str_plain:
  "x \<noteq> [] \<Longrightarrow> path_str \<lparr>p_root = r, p_tail = segs @ [x]\<rparr> = r @ join_sep (segs @ [x])"
  by (auto simp: path_str_def Let_def join_sep_snoc)

lemma output_path_beside:
  assumes s: "spelling r comps" and k: "kept comps = segs @ [name]" and od: "\<not> truthy od"
  shows "path_name (Path (r @ join_sep comps)) = name
    \<and> path_str (output_path_of (r @ join_sep comps) od (format_ext t))
        = r @ join_sep (segs @ [path_stem (Path (r @ join_sep comps)) @ format_ext t])"
proof -
  let ?p = "r @ join_sep comps"
  have P: "Path ?p = \<lparr>p_root = r, p_tail = segs @ [name]\<rparr>"
    using Path_spelled[OF s] k by simp
  have ne: "path_stem (Path ?p) @ format_ext t \<noteq> []"
    using segment_simple[of ?p t] by simp
  have "output_path_of ?p od (format_ext t)
          = \<lparr>p_root = r, p_tail = segs @ [path_stem (Path ?p) @ format_ext t]\<rparr>"
    using od by (simp add: output_path_of_def Let_def truediv_segment) (simp add: P path_parent_def)
  with ne P show ?thesis
    by (simp add: path_str_plain path_name_def)
qed

lemma output_path_override:
  assumes s: "spelling r comps" and od: "r @ join_sep comps \<noteq> []"
  shows "path_str (output_path_of p (Some (r @ join_sep comps)) (format_ext t))
        = r @ join_sep (kept comps @ [path_stem (Path p) @ format_ext t])"
proof -
  have P: "Path (r @ join_sep comps) = \<lparr>p_root = r, p_tail = kept comps\<rparr>"
    using s by (rule Path_spelled)
  have ne: "path_stem (Path p) @ format_ext t \<noteq> []"
    using segment_simple[of p t] by simp
  have "output_path_of p (Some (r @ join_sep comps)) (format_ext t)
          = \<lparr>p_root = r, p_tail = kept comps @ [path_stem (Path p) @ format_ext t]\<rparr>"
    using od by (simp add: output_path_of_def Let_def truediv_segment truthy_def) (simp add: P)
  with ne show ?thesis
    by (simp add: path_str_plain)
qed

lemma stem_no_dot: "CHR ''.'' \<notin> set (path_name P) \<Longrightarrow> path_stem P = path_name P"
  by (simp add: path_stem_def Let_def rfind_def find_last_absent)

lemma stem_leading_dot:
  assumes "path_name P = ''.'' @ sfx" and "CHR ''.'' \<notin> set sfx"
  shows "path_stem P = ''.'' @ sfx"
proof -
  have "rfind (path_name P) CHR ''.'' = 0"
    using assms find_last_at[of "CHR ''.''" sfx "[]" 0 "- 1"] by (simp add: rfind_def)
  then show ?thesis using assms(1) by (simp add: path_stem_def Let_def)
qed

lemma stem_trailing_dot:
  assumes "path_name P = base @ ''.''"
  shows "path_stem P = base @ ''.''"
proof -
  have "rfind (path_name P) CHR ''.'' = int (length base)"
    using assms find_last_at[of "CHR ''.''" "[]" base 0 "- 1"] by (simp add: rfind_def)
  then show ?thesis using assms by (simp add: path_stem_def Let_def)
qed

subsection \<open>More examples\<close>

lemma format_name_known:
  "format_name 0 = ''IMAGE''" "format_name 1 = ''PNG''" "format_name 2 = ''WEBP''"
  "format_name 3 = ''BASIS_UNIVERSAL''"
  by (simp_all add: format_name_def format_name_map_def dict_get_def)

lemma format_name_other: "3 < t \<Longrightarrow> format_name t = ''UNKNOWN('' @ py_str t @ '')''"
  by (simp add: format_name_def format_name_map_def dict_get_def)

lemma convert_run:
  assumes "open_rb fs p = Inr \<lparr>f_data = d, f_pos = 0\<rparr>" and "reads_succeed fs"
    and "56 < length d"
    and "le_value (take 4 (drop 36 d)) = t"
    and "output_path_of p od (format_ext t) = P"
    and "mkdir fs (path_parent P) True = (Inr (), fs1)"
    and "open_wb fs1 (path_str P) = Inr fs2"
    and "f_write fs2 (path_str P) (drop 56 d) = Inr fs3"
  shows "convert_ctex_to_image fs p od =
    (Inr (True, path_str P,
          ''Format: '' @ format_name t @ '', Size: '' @ py_str (length d - 56) @ '' bytes''), fs3)"
proof -
  from assms(3) have "56 \<le> length d" "drop 56 d \<noteq> []" by simp_all
  with body_reads[OF assms(1,2), of od] assms(4-8) show ?thesis
    by (simp add: convert_ctex_to_image_def Let_def)
qed

lemma ex_abs_reads: "reads_succeed ex_fs_abs"
  by (simp add: reads_succeed_def read_ops_def ex_fs_abs_def)

lemma ex_abs_home:
  "mkdir ex_fs_abs \<lparr>p_root = ''/'', p_tail = [''home'', ''u'']\<rparr> True = (Inr (), ex_fs_abs)"
proof -
  have a: "ancestors_or_self \<lparr>p_root = ''/'', p_tail = [''home'', ''u'']\<rparr>
     = [\<lparr>p_root = ''/'', p_tail = []\<rparr>, \<lparr>p_root = ''/'', p_tail = [''home'']\<rparr>,
        \<lparr>p_root = ''/'', p_tail = [''home'', ''u'']\<rparr>]"
    by code_simp
  have "ex_fs_abs\<lparr>dirs := {''/'', ''/home'', ''/home/u''}\<rparr> = ex_fs_abs"
    by (simp add: ex_fs_abs_def)
  with mkdir_creates[of "\<lparr>p_root = ''/'', p_tail = [''home'', ''u'']\<rparr>" ex_fs_abs]
  show ?thesis
    by (simp add: a path_str_def) (simp add: ex_fs_abs_def insert_absorb)
qed

lemma ex_abs_write:
  "CHR ''p'' \<in> set out \<or> CHR ''w'' \<in> set out \<or> CHR ''9'' \<in> set out \<Longrightarrow>
   open_wb ex_fs_abs out = Inr (ex_fs_abs\<lparr>files := (files ex_fs_abs)(out \<mapsto> [])\<rparr>)
   \<and> f_write (ex_fs_abs\<lparr>files := (files ex_fs_abs)(out \<mapsto> [])\<rparr>) out [0x89, 0x50, 0x4E, 0x47]
       = Inr (ex_written ex_fs_abs out)"
  by (auto simp: open_wb_def f_write_def ex_fs_abs_def ex_written_def)

lemma ex_abs_payload: "drop 56 (ex_data[36 := t]) = [0x89, 0x50, 0x4E, 0x47]"
  by (simp add: ex_data_def)

lemma ex_abs_len: "length (ex_data[36 := t]) - 56 = 4" "56 < length (ex_data[36 := t])"
  by (simp_all add: ex_data_def)

lemma ex_abs_tag: "le_value (take 4 (drop 36 (ex_data[36 := t]))) = unat t"
  by (simp add: ex_data_def)

lemma ex_run_abs:
  "convert_ctex_to_image ex_fs_abs ''/home/u/a.ctex'' None =
     (Inr (True, ''/home/u/a.png'', ''Format: PNG, Size: 4 bytes''),
      ex_written ex_fs_abs ''/home/u/a.png'')"
proof -
  have o: "open_rb ex_fs_abs ''/home/u/a.ctex'' = Inr \<lparr>f_data = ex_data, f_pos = 0\<rparr>"
    by (simp add: open_rb_def ex_fs_abs_def)
  have l: "56 < length ex_data" by (simp add: ex_len)
  have t: "le_value (take 4 (drop 36 ex_data)) = 1" by (rule ex_tag)
  have P: "output_path_of ''/home/u/a.ctex'' None (format_ext 1)
             = \<lparr>p_root = ''/'', p_tail = [''home'', ''u'', ''a.png'']\<rparr>"
    by code_simp
  have pp: "path_parent \<lparr>p_root = ''/'', p_tail = [''home'', ''u'', ''a.png'']\<rparr>
              = \<lparr>p_root = ''/'', p_tail = [''home'', ''u'']\<rparr>"
    by (simp add: path_parent_def)
  have s: "path_str \<lparr>p_root = ''/'', p_tail = [''home'', ''u'', ''a.png'']\<rparr> = ''/home/u/a.png''"
    by (simp add: path_str_def)
  have w: "open_wb ex_fs_abs ''/home/u/a.png''
             = Inr (ex_fs_abs\<lparr>files := (files ex_fs_abs)(''/home/u/a.png'' \<mapsto> [])\<rparr>)"
    and f: "f_write (ex_fs_abs\<lparr>files := (files ex_fs_abs)(''/home/u/a.png'' \<mapsto> [])\<rparr>)
              ''/home/u/a.png'' (drop 56 ex_data) = Inr (ex_written ex_fs_abs ''/home/u/a.png'')"
    using ex_abs_write[of "''/home/u/a.png''"] by (simp_all add: ex_payload)
  have m: "mkdir ex_fs_abs
             (path_parent \<lparr>p_root = ''/'', p_tail = [''home'', ''u'', ''a.png'']\<rparr>) True
             = (Inr (), ex_fs_abs)"
    by (simp add: pp ex_abs_home)
  from convert_run[OF o ex_abs_reads l t P m, unfolded s, OF w f]
  show ?thesis by (simp add: ex_name ex_len ex_str4)
qed

lemma ex_run_hidden:
  "convert_ctex_to_image ex_fs_abs ''/home/u/.ctex'' None =
     (Inr (True, ''/home/u/.ctex.webp'', ''Format: WEBP, Size: 4 bytes''),
      ex_written ex_fs_abs ''/home/u/.ctex.webp'')"
proof -
  have o: "open_rb ex_fs_abs ''/home/u/.ctex'' = Inr \<lparr>f_data = ex_data[36 := 2], f_pos = 0\<rparr>"
    by (simp add: open_rb_def ex_fs_abs_def)
  have t: "le_value (take 4 (drop 36 (ex_data[36 := 2]))) = 2"
    by (simp add: ex_abs_tag)
  have P: "output_path_of ''/home/u/.ctex'' None (format_ext 2)
             = \<lparr>p_root = ''/'', p_tail = [''home'', ''u'', ''.ctex.webp'']\<rparr>"
    by code_simp
  have pp: "path_parent \<lparr>p_root = ''/'', p_tail = [''home'', ''u'', ''.ctex.webp'']\<rparr>
              = \<lparr>p_root = ''/'', p_tail = [''home'', ''u'']\<rparr>"
    by (simp add: path_parent_def)
  have s: "path_str \<lparr>p_root = ''/'', p_tail = [''home'', ''u'', ''.ctex.webp'']\<rparr>
             = ''/home/u/.ctex.webp''"
    by (simp add: path_str_def)
  have w: "open_wb ex_fs_abs ''/home/u/.ctex.webp''
             = Inr (ex_fs_abs\<lparr>files := (files ex_fs_abs)(''/home/u/.ctex.webp'' \<mapsto> [])\<rparr>)"
    and f: "f_write (ex_fs_abs\<lparr>files := (files ex_fs_abs)(''/home/u/.ctex.webp'' \<mapsto> [])\<rparr>)
              ''/home/u/.ctex.webp'' (drop 56 (ex_data[36 := 2]))
              = Inr (ex_written ex_fs_abs ''/home/u/.ctex.webp'')"
    using ex_abs_write[of "''/home/u/.ctex.webp''"] by (simp_all add: ex_abs_payload)
  have m: "mkdir ex_fs_abs
             (path_parent \<lparr>p_root = ''/'', p_tail = [''home'', ''u'', ''.ctex.webp'']\<rparr>) True
             = (Inr (), ex_fs_abs)"
    by (simp add: pp ex_abs_home)
  from convert_run[OF o ex_abs_reads ex_abs_len(2) t P m, unfolded s, OF w f]
  show ?thesis by (simp add: format_name_known ex_len ex_str4)
qed

lemma ex_str9: "py_str 9 = ''9''"
  by code_simp

lemma ex_run_other:
  "convert_ctex_to_image ex_fs_abs ''/home/u/n.ctex'' None =
     (Inr (True, ''/home/u/n.format9'', ''Format: UNKNOWN(9), Size: 4 bytes''),
      ex_written ex_fs_abs ''/home/u/n.format9'')"
proof -
  have o: "open_rb ex_fs_abs ''/home/u/n.ctex'' = Inr \<lparr>f_data = ex_data[36 := 9], f_pos = 0\<rparr>"
    by (simp add: open_rb_def ex_fs_abs_def)
  have t: "le_value (take 4 (drop 36 (ex_data[36 := 9]))) = 9"
    by (simp add: ex_abs_tag)
  have P: "output_path_of ''/home/u/n.ctex'' None (format_ext 9)
             = \<lparr>p_root = ''/'', p_tail = [''home'', ''u'', ''n.format9'']\<rparr>"
    by code_simp
  have pp: "path_parent \<lparr>p_root = ''/'', p_tail = [''home'', ''u'', ''n.format9'']\<rparr>
              = \<lparr>p_root = ''/'', p_tail = [''home'', ''u'']\<rparr>"
    by (simp add: path_parent_def)
  have s: "path_str \<lparr>p_root = ''/'', p_tail = [''home'', ''u'', ''n.format9'']\<rparr>
             = ''/home/u/n.format9''"
    by (simp add: path_str_def)
  have w: "open_wb ex_fs_abs ''/home/u/n.format9''
             = Inr (ex_fs_abs\<lparr>files := (files ex_fs_abs)(''/home/u/n.format9'' \<mapsto> [])\<rparr>)"
    and f: "f_write (ex_fs_abs\<lparr>files := (files ex_fs_abs)(''/home/u/n.format9'' \<mapsto> [])\<rparr>)
              ''/home/u/n.format9'' (drop 56 (ex_data[36 := 9]))
              = Inr (ex_written ex_fs_abs ''/home/u/n.format9'')"
    using ex_abs_write[of "''/home/u/n.format9''"] by (simp_all add: ex_abs_payload)
  have m: "mkdir ex_fs_abs
             (path_parent \<lparr>p_root = ''/'', p_tail = [''home'', ''u'', ''n.format9'']\<rparr>) True
             = (Inr (), ex_fs_abs)"
    by (simp add: pp ex_abs_home)
  from convert_run[OF o ex_abs_reads ex_abs_len(2) t P m, unfolded s, OF w f]
  show ?thesis by (simp add: format_name_other ex_len ex_str4 ex_str9)
qed

lemma ex_run_override:
  "convert_ctex_to_image ex_fs_abs ''/home/u/a.ctex'' (Some ''/out//img/'') =
     (Inr (True, ''/out/img/a.png'', ''Format: PNG, Size: 4 bytes''),
      ex_written (ex_fs_abs\<lparr>dirs := {''/'', ''/home'', ''/home/u'', ''/out'', ''/out/img''}\<rparr>)
        ''/out/img/a.png'')"
proof -
  let ?fs1 = "ex_fs_abs\<lparr>dirs := {''/'', ''/home'', ''/home/u'', ''/out'', ''/out/img''}\<rparr>"
  have o: "open_rb ex_fs_abs ''/home/u/a.ctex'' = Inr \<lparr>f_data = ex_data, f_pos = 0\<rparr>"
    by (simp add: open_rb_def ex_fs_abs_def)
  have l: "56 < length ex_data" by (simp add: ex_len)
  have t: "le_value (take 4 (drop 36 ex_data)) = 1" by (rule ex_tag)
  have P: "output_path_of ''/home/u/a.ctex'' (Some ''/out//img/'') (format_ext 1)
             = \<lparr>p_root = ''/'', p_tail = [''out'', ''img'', ''a.png'']\<rparr>"
    by code_simp
  have pp: "path_parent \<lparr>p_root = ''/'', p_tail = [''out'', ''img'', ''a.png'']\<rparr>
              = \<lparr>p_root = ''/'', p_tail = [''out'', ''img'']\<rparr>"
    by (simp add: path_parent_def)
  have s: "path_str \<lparr>p_root = ''/'', p_tail = [''out'', ''img'', ''a.png'']\<rparr> = ''/out/img/a.png''"
    by (simp add: path_str_def)
  have a: "ancestors_or_self \<lparr>p_root = ''/'', p_tail = [''out'', ''img'']\<rparr>
     = [\<lparr>p_root = ''/'', p_tail = []\<rparr>, \<lparr>p_root = ''/'', p_tail = [''out'']\<rparr>,
        \<lparr>p_root = ''/'', p_tail = [''out'', ''img'']\<rparr>]"
    by code_simp
  have m: "mkdir ex_fs_abs
             (path_parent \<lparr>p_root = ''/'', p_tail = [''out'', ''img'', ''a.png'']\<rparr>) True
             = (Inr (), ?fs1)"
    unfolding pp
    using mkdir_creates[of "\<lparr>p_root = ''/'', p_tail = [''out'', ''img'']\<rparr>" ex_fs_abs]
    by (simp add: a path_str_def) (simp add: ex_fs_abs_def insert_commute)
  have w: "open_wb ?fs1 ''/out/img/a.png''
             = Inr (?fs1\<lparr>files := (files ?fs1)(''/out/img/a.png'' \<mapsto> [])\<rparr>)"
    by (simp add: open_wb_def ex_fs_abs_def)
  have f: "f_write (?fs1\<lparr>files := (files ?fs1)(''/out/img/a.png'' \<mapsto> [])\<rparr>)
              ''/out/img/a.png'' (drop 56 ex_data) = Inr (ex_written ?fs1 ''/out/img/a.png'')"
    by (simp add: f_write_def ex_fs_abs_def ex_written_def ex_payload)
  from convert_run[OF o ex_abs_reads l t P m, unfolded s, OF w f]
  show ?thesis by (simp add: ex_name ex_len ex_str4)
qed

lemma ex_spell:
  "spelling ''/'' [''home'', ''u'', ''a.ctex'']"
  "kept [''home'', ''u'', ''a.ctex''] = [''home'', ''u''] @ [''a.ctex'']"
  "spelling ''/'' [''home'', ''u'', ''.ctex'']"
  "kept [''home'', ''u'', ''.ctex''] = [''home'', ''u''] @ [''.ctex'']"
  "spelling ''/'' [''out'', [], ''img'', []]"
  "kept [''out'', [], ''img'', []] = [''out'', ''img'']"
  by (simp_all add: spelling_def kept_def)

subsection \<open>Where the output is placed\<close>

text \<open>
  Claim C6. Let a conversion of the input with contents \<open>d\<close> succeed, let \<open>ext\<close> be the chosen
  extension, \<open>stem\<close> the stem of the input path and \<open>P\<close> the path of lines 62 to 66. The
  returned path is \<open>path_str P\<close>, and the name of \<open>P\<close> is \<open>stem @ ext\<close>. The stem is the name of
  the input without its suffix: for a name \<open>base.sfx\<close> with a proper extension it is \<open>base\<close>; a
  name that starts with its only dot (such as \<^verbatim>\<open>.ctex\<close>), a name that ends with a dot and a
  name without a dot have no suffix and are kept whole.

  On the strings: when the input path is spelled \<open>r @ join_sep comps\<close> and the components that
  count are \<open>segs @ [name]\<close>, the name of the input is \<open>name\<close>, and without an output directory
  (\<^verbatim>\<open>None\<close> or the empty string, as \<^verbatim>\<open>if output_dir:\<close> tests it) the returned path is
  \<open>r @ join_sep (segs @ [stem @ ext])\<close>: the directory of the input, with the new name. With
  an output directory spelled \<open>r @ join_sep comps\<close> the returned path is
  \<open>r @ join_sep (kept comps @ [stem @ ext])\<close>: the new name in that directory.

  \<^verbatim>\<open>mkdir\<close> runs on the parent of \<open>P\<close> before the output file is opened: the file is opened in
  the file system \<open>fs1\<close> that \<^verbatim>\<open>mkdir\<close> returns, which differs from the initial one by
  directories only and in which the parent of \<open>P\<close> is a directory, as it still is at the end.
  When in the initial file system the parent of every directory on the way is a directory,
  all the ancestors of \<open>P\<close> are directories from then on.
\<close>

theorem output_path_placement:
  assumes "open_rb fs ctex_path = Inr \<lparr>f_data = d, f_pos = 0\<rparr>"
    and "convert_ctex_to_image fs ctex_path output_dir = (Inr (True, out, msg), fs')"
    and "ext = format_ext (le_value (take 4 (drop 36 d)))"
    and "stem = path_stem (Path ctex_path)"
    and "P = output_path_of ctex_path output_dir ext"
  shows "out = path_str P
    \<and> path_name P = stem @ ext
    \<and> stem @ path_suffix (Path ctex_path) = path_name (Path ctex_path)
    \<and> (\<forall>base sfx. path_name (Path ctex_path) = base @ ''.'' @ sfx \<and> base \<noteq> [] \<and> sfx \<noteq> []
           \<and> CHR ''.'' \<notin> set sfx \<longrightarrow> stem = base)
    \<and> (\<forall>sfx. path_name (Path ctex_path) = ''.'' @ sfx \<and> CHR ''.'' \<notin> set sfx
           \<longrightarrow> stem = ''.'' @ sfx)
    \<and> (\<forall>base. path_name (Path ctex_path) = base @ ''.'' \<longrightarrow> stem = base @ ''.'')
    \<and> (CHR ''.'' \<notin> set (path_name (Path ctex_path)) \<longrightarrow> stem = path_name (Path ctex_path))
    \<and> (\<forall>r comps segs name. spelling r comps \<and> ctex_path = r @ join_sep comps
           \<and> kept comps = segs @ [name] \<longrightarrow>
             path_name (Path ctex_path) = name
           \<and> (output_dir = None \<or> output_dir = Some []
                \<longrightarrow> out = r @ join_sep (segs @ [stem @ ext])))
    \<and> (\<forall>r comps. spelling r comps \<and> r @ join_sep comps \<noteq> []
           \<and> output_dir = Some (r @ join_sep comps) \<longrightarrow>
             out = r @ join_sep (kept comps @ [stem @ ext]))
    \<and> (\<forall>dir. output_dir = Some dir \<and> dir \<noteq> [] \<longrightarrow> path_parent P = Path dir)
    \<and> (output_dir = None \<or> output_dir = Some [] \<longrightarrow> path_parent P = path_parent (Path ctex_path))
    \<and> (\<exists>fs1 fs2. mkdir fs (path_parent P) True = (Inr (), fs1)
          \<and> open_wb fs1 out = Inr fs2
          \<and> f_write fs2 out (drop 56 d) = Inr fs'
          \<and> files fs1 = files fs \<and> dirs fs \<subseteq> dirs fs1 \<and> dirs fs' = dirs fs1
          \<and> is_dir fs1 (path_parent P) \<and> is_dir fs' (path_parent P)
          \<and> ((\<forall>Q \<in> set (ancestors_or_self (path_parent P)).
                  is_dir fs Q \<longrightarrow> is_dir fs (path_parent Q))
               \<longrightarrow> (\<forall>Q \<in> set (ancestors_or_self (path_parent P)).
                      is_dir fs1 Q \<and> is_dir fs' Q)))"
proof -
  from body_success[OF convert_success[OF assms(2)]] assms(1) obtain fs1 fs2 where
    out0: "out = path_str (output_path_of ctex_path output_dir
                (format_ext (le_value (take 4 (drop 36 d)))))"
    and m0: "mkdir fs (path_parent (output_path_of ctex_path output_dir
                (format_ext (le_value (take 4 (drop 36 d)))))) True = (Inr (), fs1)"
    and w: "open_wb fs1 out = Inr fs2"
    and f: "f_write fs2 out (drop 56 d) = Inr fs'"
    by auto
  let ?t = "le_value (take 4 (drop 36 d))"
  from out0 m0 assms(3,5) have out: "out = path_str P"
    and m: "mkdir fs (path_parent P) True = (Inr (), fs1)"
    by simp_all
  from open_wb_Inr[OF w] f_write_Inr[OF f]
  have same: "dirs fs' = dirs fs1" "resolve fs' = resolve fs1"
    by auto
  then have d': "is_dir fs' Q = is_dir fs1 Q" for Q
    by (simp add: is_dir_def)
  from mkdir_frame[OF m] have grow: "dirs fs \<subseteq> dirs fs1" by simp
  have anc: "\<forall>Q \<in> set (ancestors_or_self (path_parent P)). is_dir fs1 Q \<and> is_dir fs' Q"
    if "\<forall>Q \<in> set (ancestors_or_self (path_parent P)). is_dir fs Q \<longrightarrow> is_dir fs (path_parent Q)"
    using mkdir_ancestors[OF m that] by (simp add: d')
  from m w f mkdir_files[OF m] grow same(1) mkdir_Inr[OF m] anc
  have made: "\<exists>fs1 fs2. mkdir fs (path_parent P) True = (Inr (), fs1)
          \<and> open_wb fs1 out = Inr fs2
          \<and> f_write fs2 out (drop 56 d) = Inr fs'
          \<and> files fs1 = files fs \<and> dirs fs \<subseteq> dirs fs1 \<and> dirs fs' = dirs fs1
          \<and> is_dir fs1 (path_parent P) \<and> is_dir fs' (path_parent P)
          \<and> ((\<forall>Q \<in> set (ancestors_or_self (path_parent P)).
                  is_dir fs Q \<longrightarrow> is_dir fs (path_parent Q))
               \<longrightarrow> (\<forall>Q \<in> set (ancestors_or_self (path_parent P)).
                      is_dir fs1 Q \<and> is_dir fs' Q))"
    by (intro exI[of _ fs1] exI[of _ fs2]) (simp add: d')
  have stem: "\<forall>base sfx. path_name (Path ctex_path) = base @ ''.'' @ sfx \<and> base \<noteq> [] \<and> sfx \<noteq> []
           \<and> CHR ''.'' \<notin> set sfx \<longrightarrow> stem = base"
    unfolding assms(4) using stem_of_extension[of "Path ctex_path"] by blast
  have hidden: "\<forall>sfx. path_name (Path ctex_path) = ''.'' @ sfx \<and> CHR ''.'' \<notin> set sfx
           \<longrightarrow> stem = ''.'' @ sfx"
    unfolding assms(4) using stem_leading_dot[of "Path ctex_path"] by blast
  have trailing: "\<forall>base. path_name (Path ctex_path) = base @ ''.'' \<longrightarrow> stem = base @ ''.''"
    unfolding assms(4) using stem_trailing_dot[of "Path ctex_path"] by blast
  have nodot: "CHR ''.'' \<notin> set (path_name (Path ctex_path)) \<longrightarrow> stem = path_name (Path ctex_path)"
    unfolding assms(4) by (simp add: stem_no_dot)
  have par1: "\<forall>dir. output_dir = Some dir \<and> dir \<noteq> [] \<longrightarrow> path_parent P = Path dir"
    unfolding assms(3,5) by (simp add: output_path_parent truthy_def)
  have par2: "output_dir = None \<or> output_dir = Some []
           \<longrightarrow> path_parent P = path_parent (Path ctex_path)"
    unfolding assms(3,5) by (auto simp: output_path_parent truthy_def)
  have name: "path_name P = stem @ ext"
    unfolding assms(3,4,5) by (rule output_path_name)
  have ss: "stem @ path_suffix (Path ctex_path) = path_name (Path ctex_path)"
    unfolding assms(4) by (rule stem_suffix)
  have beside: "\<forall>r comps segs name. spelling r comps \<and> ctex_path = r @ join_sep comps
           \<and> kept comps = segs @ [name] \<longrightarrow>
             path_name (Path ctex_path) = name
           \<and> (output_dir = None \<or> output_dir = Some []
                \<longrightarrow> out = r @ join_sep (segs @ [stem @ ext]))"
  proof (intro allI impI, elim conjE)
    fix r comps segs name
    assume s: "spelling r comps" and c: "ctex_path = r @ join_sep comps"
      and k: "kept comps = segs @ [name]"
    have n: "path_name (Path ctex_path) = name"
      unfolding c using Path_spelled[OF s] k by (simp add: path_name_def)
    have "out = r @ join_sep (segs @ [stem @ ext])"
      if "output_dir = None \<or> output_dir = Some []"
    proof -
      from that have "\<not> truthy output_dir" by (auto simp: truthy_def)
      from output_path_beside[OF s k this, of ?t] out0 show ?thesis
        unfolding c[symmetric] assms(3,4) by simp
    qed
    with n show "path_name (Path ctex_path) = name
           \<and> (output_dir = None \<or> output_dir = Some []
                \<longrightarrow> out = r @ join_sep (segs @ [stem @ ext]))"
      by blast
  qed
  have override: "\<forall>r comps. spelling r comps \<and> r @ join_sep comps \<noteq> []
           \<and> output_dir = Some (r @ join_sep comps) \<longrightarrow>
             out = r @ join_sep (kept comps @ [stem @ ext])"
    unfolding assms(3,4) using output_path_override[of _ _ ctex_path ?t] out0 by auto
  show ?thesis
    by (intro conjI out name ss stem hidden trailing nodot beside override par1 par2 made)
qed

text \<open>The example under \<^verbatim>\<open>/home/u\<close>, converted beside its input and into the missing
  directory \<^verbatim>\<open>/out/img\<close>, which is given with a doubled and a trailing slash; the hidden file
  \<^verbatim>\<open>.ctex\<close>, which keeps its whole name; and the example under the relative path \<^verbatim>\<open>t\<close>,
  converted beside its input and into \<^verbatim>\<open>o\<close>.\<close>

theorem output_path_placement_witness:
  "convert_ctex_to_image ex_fs_abs ''/home/u/a.ctex'' None
     = (Inr (True, ''/home/u/a.png'', ''Format: PNG, Size: 4 bytes''),
        ex_written ex_fs_abs ''/home/u/a.png'')
   \<and> path_name (Path ''/home/u/a.ctex'') = ''a.ctex''
   \<and> path_stem (Path ''/home/u/a.ctex'') = ''a''
   \<and> ''/home/u/a.png'' = ''/'' @ join_sep ([''home'', ''u''] @ [''a'' @ ''.png''])
   \<and> convert_ctex_to_image ex_fs_abs ''/home/u/a.ctex'' (Some ''/out//img/'')
     = (Inr (True, ''/out/img/a.png'', ''Format: PNG, Size: 4 bytes''),
        ex_written (ex_fs_abs\<lparr>dirs := {''/'', ''/home'', ''/home/u'', ''/out'', ''/out/img''}\<rparr>)
          ''/out/img/a.png'')
   \<and> ''/out/img/a.png'' = ''/'' @ join_sep ([''out'', ''img''] @ [''a'' @ ''.png''])
   \<and> ''/out'' \<notin> dirs ex_fs_abs \<and> ''/out/img'' \<notin> dirs ex_fs_abs
   \<and> is_dir (ex_written (ex_fs_abs\<lparr>dirs := {''/'', ''/home'', ''/home/u'', ''/out'', ''/out/img''}\<rparr>)
               ''/out/img/a.png'') \<lparr>p_root = ''/'', p_tail = [''out'', ''img'']\<rparr>
   \<and> convert_ctex_to_image ex_fs_abs ''/home/u/.ctex'' None
     = (Inr (True, ''/home/u/.ctex.webp'', ''Format: WEBP, Size: 4 bytes''),
        ex_written ex_fs_abs ''/home/u/.ctex.webp'')
   \<and> path_name (Path ''/home/u/.ctex'') = ''.ctex''
   \<and> path_stem (Path ''/home/u/.ctex'') = ''.ctex''
   \<and> convert_ctex_to_image ex_fs ''t/a.ctex'' None
     = (Inr (True, ''t/a.png'', ''Format: PNG, Size: 4 bytes''), ex_fs_after)
   \<and> convert_ctex_to_image ex_fs ''t/a.ctex'' (Some ''o'')
     = (Inr (True, ''o/a.png'', ''Format: PNG, Size: 4 bytes''), ex_fs_after_dir)"
proof -
  have e1: "format_ext (le_value (take 4 (drop 36 ex_data))) = ''.png''"
    by (simp add: ex_tag ex_ext)
  have o1: "open_rb ex_fs_abs ''/home/u/a.ctex'' = Inr \<lparr>f_data = ex_data, f_pos = 0\<rparr>"
    by (simp add: open_rb_def ex_fs_abs_def)
  have o2: "open_rb ex_fs_abs ''/home/u/.ctex'' = Inr \<lparr>f_data = ex_data[36 := 2], f_pos = 0\<rparr>"
    by (simp add: open_rb_def ex_fs_abs_def)
  have p1: "''/home/u/a.ctex'' = ''/'' @ join_sep [''home'', ''u'', ''a.ctex'']"
    and p2: "''/home/u/.ctex'' = ''/'' @ join_sep [''home'', ''u'', ''.ctex'']"
    and p3: "''/'' @ join_sep [''out'', [], ''img'', []] \<noteq> []"
      "Some ''/out//img/'' = Some (''/'' @ join_sep [''out'', [], ''img'', []])"
    by simp_all
  note u = output_path_placement[OF o1 ex_run_abs refl refl refl]
  note u4 = u[THEN conjunct2, THEN conjunct2, THEN conjunct2]
  note u8 = u4[THEN conjunct2, THEN conjunct2, THEN conjunct2, THEN conjunct2]
  from u8[THEN conjunct1, rule_format, of "''/''" "[''home'', ''u'', ''a.ctex'']"
      "[''home'', ''u'']" "''a.ctex''"] ex_spell(1,2) p1
  have n1: "path_name (Path ''/home/u/a.ctex'') = ''a.ctex''"
    and b1: "''/home/u/a.png'' = ''/'' @ join_sep ([''home'', ''u'']
               @ [path_stem (Path ''/home/u/a.ctex'')
                    @ format_ext (le_value (take 4 (drop 36 ex_data)))])"
    by blast+
  from n1 have "path_name (Path ''/home/u/a.ctex'') = ''a'' @ ''.'' @ ''ctex'' \<and> ''a'' \<noteq> []
          \<and> ''ctex'' \<noteq> [] \<and> CHR ''.'' \<notin> set ''ctex''"
    by simp
  from u4[THEN conjunct1, rule_format, OF this]
  have s1: "path_stem (Path ''/home/u/a.ctex'') = ''a''" .
  note v = output_path_placement[OF o1 ex_run_override refl refl refl]
  note v8 = v[THEN conjunct2, THEN conjunct2, THEN conjunct2, THEN conjunct2, THEN conjunct2,
      THEN conjunct2, THEN conjunct2]
  from v8[THEN conjunct2, THEN conjunct1, rule_format, of "''/''" "[''out'', [], ''img'', []]"]
    ex_spell(5) p3
  have b2: "''/out/img/a.png'' = ''/'' @ join_sep (kept [''out'', [], ''img'', []]
               @ [path_stem (Path ''/home/u/a.ctex'')
                    @ format_ext (le_value (take 4 (drop 36 ex_data)))])"
    by blast
  have pp: "path_parent (output_path_of ''/home/u/a.ctex'' (Some ''/out//img/'')
              (format_ext (le_value (take 4 (drop 36 ex_data)))))
              = \<lparr>p_root = ''/'', p_tail = [''out'', ''img'']\<rparr>"
    unfolding e1 by code_simp
  from v8[THEN conjunct2, THEN conjunct2, THEN conjunct2, THEN conjunct2]
  have d2: "is_dir (ex_written (ex_fs_abs\<lparr>dirs := {''/'', ''/home'', ''/home/u'', ''/out'', ''/out/img''}\<rparr>)
               ''/out/img/a.png'') \<lparr>p_root = ''/'', p_tail = [''out'', ''img'']\<rparr>"
    unfolding pp by blast
  note h = output_path_placement[OF o2 ex_run_hidden refl refl refl]
  note h4 = h[THEN conjunct2, THEN conjunct2, THEN conjunct2]
  from h4[THEN conjunct2, THEN conjunct2, THEN conjunct2, THEN conjunct2, THEN conjunct1,
      rule_format, of "''/''" "[''home'', ''u'', ''.ctex'']" "[''home'', ''u'']" "''.ctex''"]
    ex_spell(3,4) p2
  have n3: "path_name (Path ''/home/u/.ctex'') = ''.ctex''"
    by blast
  from n3 have "path_name (Path ''/home/u/.ctex'') = ''.'' @ ''ctex'' \<and> CHR ''.'' \<notin> set ''ctex''"
    by simp
  from h4[THEN conjunct2, THEN conjunct1, rule_format, OF this]
  have s3: "path_stem (Path ''/home/u/.ctex'') = ''.ctex''"
    by simp
  have d: "''/out'' \<notin> dirs ex_fs_abs \<and> ''/out/img'' \<notin> dirs ex_fs_abs"
    by (simp add: ex_fs_abs_def)
  from b1 b2 have b: "''/home/u/a.png'' = ''/'' @ join_sep ([''home'', ''u''] @ [''a'' @ ''.png''])"
    "''/out/img/a.png'' = ''/'' @ join_sep ([''out'', ''img''] @ [''a'' @ ''.png''])"
    unfolding s1 e1 ex_spell(6) by simp_all
  show ?thesis
    by (intro conjI ex_run_abs n1 s1 b ex_run_override d[THEN conjunct1] d[THEN conjunct2] d2
        ex_run_hidden n3 s3 ex_run ex_run_dir)
qed

subsection \<open>The result tuple\<close>

lemma path_str_nonempty: "path_str P \<noteq> []"
  by (simp add: path_str_def Let_def)

lemma ex_denied_run:
  "convert_ctex_to_image ex_fs_denied ''t/a.ctex'' None
     = (Inr (False, [], ''Error processing file: [Errno 13] Permission denied''), ex_fs_denied)"
  by (simp add: convert_ctex_to_image_def convert_try_body_def open_rb_def ex_fs_denied_def)

text \<open>
  Claim C10. Whatever tuple \<open>(ok, out, msg)\<close> the function returns: \<open>ok\<close> holds exactly
  when \<open>out\<close> is not empty; on failure \<open>out\<close> is the empty string and \<open>msg\<close> is not empty; on
  success \<open>msg\<close> is \<^verbatim>\<open>Format: \<close> followed by the name of the format tag of the input,
  \<^verbatim>\<open>, Size: \<close>, the number of payload bytes in decimal (from which the number can be read
  back), and \<^verbatim>\<open> bytes\<close>. The tag is the little-endian value of the bytes at offsets 36 to
  39. Its name is \<^verbatim>\<open>IMAGE\<close>, \<^verbatim>\<open>PNG\<close>, \<^verbatim>\<open>WEBP\<close> or \<^verbatim>\<open>BASIS_UNIVERSAL\<close> for the tags 0, 1, 2
  and 3; for every other tag it is \<^verbatim>\<open>UNKNOWN(\<close>, the decimal digits of the tag and \<^verbatim>\<open>)\<close>, which
  is none of the four names and from which the tag can be read back.
\<close>

theorem result_invariant:
  assumes "convert_ctex_to_image fs ctex_path output_dir = (Inr (ok, out, msg), fs')"
  shows "(ok \<longleftrightarrow> out \<noteq> [])
     \<and> (\<not> ok \<longrightarrow> out = [] \<and> msg \<noteq> [])
     \<and> (ok \<longrightarrow> (\<exists>d tag. open_rb fs ctex_path = Inr \<lparr>f_data = d, f_pos = 0\<rparr>
            \<and> tag = unat (d ! 36) + 256 * unat (d ! 37) + 65536 * unat (d ! 38)
                       + 16777216 * unat (d ! 39)
            \<and> msg = ''Format: '' @ format_name tag @ '', Size: ''
                      @ py_str (length (drop 56 d)) @ '' bytes''
            \<and> parse_decimal (py_str (length (drop 56 d))) = length (drop 56 d)))
     \<and> format_name 0 = ''IMAGE'' \<and> format_name 1 = ''PNG'' \<and> format_name 2 = ''WEBP''
     \<and> format_name 3 = ''BASIS_UNIVERSAL''
     \<and> (\<forall>t. t \<notin> {0, 1, 2, 3} \<longrightarrow>
            format_name t = ''UNKNOWN('' @ py_str t @ '')''
          \<and> parse_decimal (take (length (format_name t) - 9) (drop 8 (format_name t))) = t
          \<and> format_name t \<notin> {''IMAGE'', ''PNG'', ''WEBP'', ''BASIS_UNIVERSAL''})"
proof -
  have tab: "format_name t = ''UNKNOWN('' @ py_str t @ '')''
          \<and> parse_decimal (take (length (format_name t) - 9) (drop 8 (format_name t))) = t
          \<and> format_name t \<notin> {''IMAGE'', ''PNG'', ''WEBP'', ''BASIS_UNIVERSAL''}"
    if "t \<notin> {0, 1, 2, 3}" for t
  proof -
    from that have "3 < t" by auto
    then have "format_name t = ''UNKNOWN('' @ py_str t @ '')''" by (rule format_name_other)
    then show ?thesis by (simp add: parse_py_str)
  qed
  have inv: "(ok \<longleftrightarrow> out \<noteq> [])
     \<and> (\<not> ok \<longrightarrow> out = [] \<and> msg \<noteq> [])
     \<and> (ok \<longrightarrow> (\<exists>d tag. open_rb fs ctex_path = Inr \<lparr>f_data = d, f_pos = 0\<rparr>
            \<and> tag = unat (d ! 36) + 256 * unat (d ! 37) + 65536 * unat (d ! 38)
                       + 16777216 * unat (d ! 39)
            \<and> msg = ''Format: '' @ format_name tag @ '', Size: ''
                      @ py_str (length (drop 56 d)) @ '' bytes''
            \<and> parse_decimal (py_str (length (drop 56 d))) = length (drop 56 d)))"
  proof (cases ok)
    case True
    with assms have "convert_try_body fs ctex_path output_dir = (Inr (True, out, msg), fs')"
      by (simp add: convert_success)
    from body_success[OF this] obtain d where
      o: "open_rb fs ctex_path = Inr \<lparr>f_data = d, f_pos = 0\<rparr>" and l: "56 < length d"
      and out: "out = path_str (output_path_of ctex_path output_dir
                  (format_ext (le_value (take 4 (drop 36 d)))))"
      and msg: "msg = ''Format: '' @ format_name (le_value (take 4 (drop 36 d))) @ '', Size: ''
              @ py_str (length d - 56) @ '' bytes''"
      by blast
    from l have t: "take 4 (drop 36 d) = [d ! 36, d ! 37, d ! 38, d ! 39]"
      by (simp add: take4_drop36)
    from msg have "msg = ''Format: ''
        @ format_name (unat (d ! 36) + 256 * unat (d ! 37) + 65536 * unat (d ! 38)
                       + 16777216 * unat (d ! 39))
        @ '', Size: '' @ py_str (length (drop 56 d)) @ '' bytes''"
      unfolding t le_value_4 by simp
    with o out True show ?thesis
      by (auto simp: path_str_nonempty parse_py_str)
  next
    case False
    from convert_Inr_cases[OF assms] have "out = [] \<and> msg \<noteq> []"
    proof
      assume "convert_try_body fs ctex_path output_dir = (Inr (ok, out, msg), fs')"
      with False show ?thesis by (auto dest: body_failure)
    next
      assume "\<exists>e. convert_try_body fs ctex_path output_dir = (Inl e, fs') \<and> is_Exception e
            \<and> (ok, out, msg) = (False, [], ''Error processing file: '' @ exn_str e)"
      then show ?thesis by auto
    qed
    with False show ?thesis by simp
  qed
  from inv tab format_name_known show ?thesis by blast
qed

text \<open>The example, which succeeds with the tag 1; the files with the tags 2 and 9; and the
  example when it may not be read.\<close>

theorem result_invariant_witness:
  "convert_ctex_to_image ex_fs ''t/a.ctex'' None
     = (Inr (True, ''t/a.png'', ''Format: PNG, Size: 4 bytes''), ex_fs_after)
   \<and> ''t/a.png'' \<noteq> []
   \<and> convert_ctex_to_image ex_fs_abs ''/home/u/.ctex'' None
     = (Inr (True, ''/home/u/.ctex.webp'', ''Format: WEBP, Size: 4 bytes''),
        ex_written ex_fs_abs ''/home/u/.ctex.webp'')
   \<and> convert_ctex_to_image ex_fs_abs ''/home/u/n.ctex'' None
     = (Inr (True, ''/home/u/n.format9'', ''Format: UNKNOWN(9), Size: 4 bytes''),
        ex_written ex_fs_abs ''/home/u/n.format9'')
   \<and> format_name 2 = ''WEBP'' \<and> format_name 9 = ''UNKNOWN(9)''
   \<and> convert_ctex_to_image ex_fs_denied ''t/a.ctex'' None
     = (Inr (False, [], ''Error processing file: [Errno 13] Permission denied''), ex_fs_denied)
   \<and> ''Error processing file: [Errno 13] Permission denied'' \<noteq> []"
proof -
  note u = result_invariant[OF ex_run_hidden]
  have "(9::nat) \<notin> {0, 1, 2, 3}" by simp
  with u have "format_name 9 = ''UNKNOWN('' @ py_str 9 @ '')''" by blast
  then have n: "format_name 9 = ''UNKNOWN(9)''" by (simp add: ex_str9)
  from u have w: "format_name 2 = ''WEBP''" by blast
  from result_invariant[OF ex_run] result_invariant[OF ex_denied_run]
    ex_run ex_run_hidden ex_run_other ex_denied_run n w
  show ?thesis by simp
qed

end
